theory Spec2Isabelle
  imports Main
begin

section \<open>Data model: the four tables of the booking database\<close>

text \<open>
  The engine keeps all of its state in four PostgreSQL tables (\<^verbatim>\<open>createTables\<close>):
  \<^verbatim>\<open>conferences\<close>, \<^verbatim>\<open>users\<close>, \<^verbatim>\<open>bookings\<close> and \<^verbatim>\<open>waitlist\<close>. A table is a list of
  rows in insertion order; a row is a record of the columns the booking service reads
  or writes (\<^verbatim>\<open>location\<close>, \<^verbatim>\<open>topics\<close>, \<^verbatim>\<open>updated_at\<close> and the serial \<^verbatim>\<open>id\<close> are never
  consulted by it and are left out). Timestamps are milliseconds as \<open>int\<close>, SQL
  \<^verbatim>\<open>INTEGER\<close> columns are \<open>int\<close> with the range of the type checked where a statement
  writes a computed value, a nullable column is an \<open>option\<close>. A value of a \<^verbatim>\<open>UUID\<close>
  column is the text PostgreSQL prints for it.
\<close>

datatype status = CONFIRMED | WAITLISTED | CANCELED

record conference =
  name :: string
  start_time :: int
  end_time :: int
  total_slots :: int
  available_slots :: int

record booking =
  booking_id :: string
  conference_name :: string
  user_id :: string
  status :: status
  created_at :: int
  confirm_by :: "int option"

record waitlist_row =
  w_conference_name :: string
  w_booking_id :: string
  position :: int
  w_created_at :: int

record db =
  conferences :: "conference list"
  users :: "string list"
  bookings :: "booking list"
  waitlist :: "waitlist_row list"

text \<open>
  What a service method returns: \<^verbatim>\<open>{success: false, error}\<close> or
  \<^verbatim>\<open>{success: true, booking_id, status, position?}\<close>.
\<close>

datatype result = Failure string | Success string status "int option"

section \<open>Column types: \<^verbatim>\<open>UUID\<close> and \<^verbatim>\<open>INTEGER\<close>\<close>

text \<open>
  \<^verbatim>\<open>bookings.booking_id\<close> and \<^verbatim>\<open>waitlist.booking_id\<close> are \<^verbatim>\<open>UUID\<close> columns. A statement
  that compares or stores an identifier given as text first reads the text as a UUID,
  and raises \<^verbatim>\<open>invalid input syntax for type uuid\<close> when it is none. PostgreSQL reads
  sixteen bytes of two hexadecimal digits each, in either case, with an optional
  hyphen after any group of four digits but the last, the whole optionally in braces;
  it prints the value in lower case in groups of 8, 4, 4, 4 and 12 digits, which is
  also the text \<^verbatim>\<open>uuidv4()\<close> draws. Two texts denote the same identifier when they
  print the same, so \<open>uuid_in\<close> gives the printed text, and \<open>None\<close> is the raised error.
\<close>

definition isxdigit :: "char \<Rightarrow> bool" where
  "isxdigit c \<longleftrightarrow> c \<in> set ''0123456789abcdefABCDEF''"

definition hex_lower :: "char \<Rightarrow> char" where
  "hex_lower c = (case map_of (zip ''ABCDEF'' ''abcdef'') c of None \<Rightarrow> c | Some l \<Rightarrow> l)"

text \<open>
  The loop over the sixteen bytes, \<^verbatim>\<open>i = 0, \<dots>, 15\<close>: byte \<open>i\<close> may be followed by a
  hyphen when \<open>i\<close> is odd and less than 15. \<open>uuid_digits hs src\<close> reads one byte of
  \<open>src\<close> for each flag of \<open>hs\<close>, the flag saying whether a hyphen may follow, and
  gives the digits in lower case and the unread rest.
\<close>

definition hyphen_may_follow :: "bool list" where
  "hyphen_may_follow =
     [False, True, False, True, False, True, False, True,
      False, True, False, True, False, True, False, False]"

fun uuid_digits :: "bool list \<Rightarrow> string \<Rightarrow> (string \<times> string) option" where
  "uuid_digits [] src = Some ([], src)"
| "uuid_digits (h # hs) (a # b # src) =
     (if isxdigit a \<and> isxdigit b
      then (case uuid_digits hs (if h \<and> take 1 src = ''-'' then drop 1 src else src) of
              None \<Rightarrow> None
            | Some (ds, rest) \<Rightarrow> Some (hex_lower a # hex_lower b # ds, rest))
      else None)"
| "uuid_digits (h # hs) src = None"

definition uuid_out :: "string \<Rightarrow> string" where
  "uuid_out ds =
     take 8 ds @ ''-'' @ take 4 (drop 8 ds) @ ''-'' @ take 4 (drop 12 ds) @ ''-'' @
     take 4 (drop 16 ds) @ ''-'' @ drop 20 ds"

definition uuid_in :: "string \<Rightarrow> string option" where
  "uuid_in source =
     (let braces = (take 1 source = ''{'');
          src = (if braces then drop 1 source else source)
      in case uuid_digits hyphen_may_follow src of
           None \<Rightarrow> None
         | Some (ds, rest) \<Rightarrow>
             if rest = (if braces then ''}'' else []) then Some (uuid_out ds) else None)"

text \<open>The greatest value of an \<^verbatim>\<open>INTEGER\<close> column; a greater one raises
  \<^verbatim>\<open>integer out of range\<close>.\<close>

definition int4_max :: int where
  "int4_max = 2147483647"

section \<open>Collaborators: directories and the conflict validator\<close>

definition getConferenceByName :: "db \<Rightarrow> string \<Rightarrow> conference option" where
  "getConferenceByName s n = find (\<lambda>c. name c = n) (conferences s)"

definition getUserById :: "db \<Rightarrow> string \<Rightarrow> string option" where
  "getUserById s u = find (\<lambda>x. x = u) (users s)"

text \<open>\<^verbatim>\<open>hasConferenceStarted\<close> throws when the conference is missing: \<open>None\<close>.\<close>

definition hasConferenceStarted :: "db \<Rightarrow> string \<Rightarrow> int \<Rightarrow> bool option" where
  "hasConferenceStarted s n now =
     (case find (\<lambda>c. name c = n) (conferences s) of
        None \<Rightarrow> None
      | Some c \<Rightarrow> Some (start_time c \<le> now))"

definition getStartedConferences :: "db \<Rightarrow> int \<Rightarrow> conference list" where
  "getStartedConferences s now = filter (\<lambda>c. start_time c \<le> now) (conferences s)"

definition hasExistingBooking :: "db \<Rightarrow> string \<Rightarrow> string \<Rightarrow> bool" where
  "hasExistingBooking s uid cn =
     list_ex (\<lambda>b. user_id b = uid \<and> conference_name b = cn \<and> status b \<noteq> CANCELED)
       (bookings s)"

text \<open>
  \<^verbatim>\<open>hasConflictingBooking\<close> joins the requester's active bookings with their
  conferences and tests the half-open overlap \<^verbatim>\<open>c.start_time < $3 AND c.end_time > $2\<close>;
  \<^verbatim>\<open>bookConference\<close> calls it without an excluded conference.
\<close>

definition hasConflictingBooking :: "db \<Rightarrow> string \<Rightarrow> int \<Rightarrow> int \<Rightarrow> bool" where
  "hasConflictingBooking s uid startTime endTime =
     list_ex (\<lambda>b. user_id b = uid \<and> (status b = CONFIRMED \<or> status b = WAITLISTED) \<and>
                list_ex (\<lambda>c. name c = conference_name b \<and>
                              start_time c < endTime \<and> end_time c > startTime)
                  (conferences s))
       (bookings s)"

section \<open>SQL statements of the booking service\<close>

text \<open>
  A statement that violates a constraint of the schema, or is given a value that its
  column type does not admit, raises, which every service method catches, rolls back
  and reports. \<open>None\<close> is the raised error. The statements of the service can hit:
  the \<^verbatim>\<open>UUID\<close> type of an identifier given as text; the keys of \<^verbatim>\<open>bookings\<close>
  (\<^verbatim>\<open>booking_id PRIMARY KEY\<close>, \<^verbatim>\<open>UNIQUE(conference_name, user_id)\<close>) on insert; the
  checks of \<^verbatim>\<open>conferences\<close> (\<^verbatim>\<open>available_slots >= 0\<close>, \<^verbatim>\<open>available_slots <= total_slots\<close>)
  on update; the keys of \<^verbatim>\<open>waitlist\<close> (\<^verbatim>\<open>UNIQUE(conference_name, booking_id)\<close>,
  \<^verbatim>\<open>UNIQUE(conference_name, position)\<close>) on insert and on every update of a position;
  and, where a position is computed, the range of \<^verbatim>\<open>INTEGER\<close>.

  The foreign keys are not checked by the model: they hold for every row the service
  writes, since it has just read the row they refer to and never deletes a
  conference, a user or a booking.

  The service methods run one after the other: a transaction is a function from the
  database to the database, and a rollback returns the database the method was given.
\<close>

definition insert_booking :: "db \<Rightarrow> booking \<Rightarrow> db option" where
  "insert_booking s b =
     (if list_ex (\<lambda>x. booking_id x = booking_id b) (bookings s)
         \<or> list_ex (\<lambda>x. conference_name x = conference_name b \<and> user_id x = user_id b)
              (bookings s)
      then None
      else Some (s\<lparr>bookings := bookings s @ [b]\<rparr>))"

definition update_available_slots :: "db \<Rightarrow> string \<Rightarrow> int \<Rightarrow> db option" where
  "update_available_slots s cn d =
     (if list_all (\<lambda>c. name c = cn \<longrightarrow>
                       0 \<le> available_slots c + d \<and> available_slots c + d \<le> total_slots c)
           (conferences s)
      then Some (s\<lparr>conferences :=
                     map (\<lambda>c. if name c = cn
                               then c\<lparr>available_slots := available_slots c + d\<rparr> else c)
                       (conferences s)\<rparr>)
      else None)"

definition insert_waitlist :: "db \<Rightarrow> waitlist_row \<Rightarrow> db option" where
  "insert_waitlist s w =
     (if list_ex (\<lambda>x. w_conference_name x = w_conference_name w \<and>
                       (w_booking_id x = w_booking_id w \<or> position x = position w))
           (waitlist s)
      then None
      else Some (s\<lparr>waitlist := waitlist s @ [w]\<rparr>))"

definition update_booking :: "db \<Rightarrow> (booking \<Rightarrow> bool) \<Rightarrow> (booking \<Rightarrow> booking) \<Rightarrow> db" where
  "update_booking s P f = s\<lparr>bookings := map (\<lambda>b. if P b then f b else b) (bookings s)\<rparr>"

definition delete_waitlist :: "db \<Rightarrow> (waitlist_row \<Rightarrow> bool) \<Rightarrow> db" where
  "delete_waitlist s P = s\<lparr>waitlist := filter (\<lambda>w. \<not> P w) (waitlist s)\<rparr>"

text \<open>\<^verbatim>\<open>SELECT MAX(position)\<close>: \<open>None\<close> is SQL's \<^verbatim>\<open>NULL\<close> on no rows.\<close>

fun sql_max :: "int list \<Rightarrow> int option" where
  "sql_max [] = None"
| "sql_max (x # xs) = (case sql_max xs of None \<Rightarrow> Some x | Some m \<Rightarrow> Some (max x m))"

definition waitlist_of :: "db \<Rightarrow> string \<Rightarrow> waitlist_row list" where
  "waitlist_of s cn = filter (\<lambda>w. w_conference_name w = cn) (waitlist s)"

text \<open>\<^verbatim>\<open>COALESCE(MAX(position), 0)\<close> over the conference's waitlist rows.\<close>

definition max_position :: "db \<Rightarrow> string \<Rightarrow> int" where
  "max_position s cn =
     (case sql_max (map position (waitlist_of s cn)) of None \<Rightarrow> 0 | Some m \<Rightarrow> m)"

text \<open>
  An \<^verbatim>\<open>UPDATE\<close> of \<^verbatim>\<open>waitlist.position\<close> writes its rows one at a time.
  \<^verbatim>\<open>UNIQUE(conference_name, position)\<close> is not deferrable: it is checked as each row is
  written, against the table of that moment, in which the rows the statement has
  already written have their new position and the others still their old one.
  \<open>write_position ws cn k p\<close> writes position \<open>p\<close> to the row of booking \<open>k\<close> in the
  waitlist of \<open>cn\<close>; it raises when \<open>p\<close> does not fit \<^verbatim>\<open>INTEGER\<close> or when another row of
  that waitlist has position \<open>p\<close>.
\<close>

definition position_taken :: "waitlist_row list \<Rightarrow> string \<Rightarrow> string \<Rightarrow> int \<Rightarrow> bool" where
  "position_taken ws cn k p \<longleftrightarrow>
     list_ex (\<lambda>w. w_conference_name w = cn \<and> w_booking_id w \<noteq> k \<and> position w = p) ws"

definition write_position ::
  "waitlist_row list \<Rightarrow> string \<Rightarrow> string \<Rightarrow> int \<Rightarrow> waitlist_row list option" where
  "write_position ws cn k p =
     (if p > int4_max \<or> position_taken ws cn k p
      then None
      else Some (map (\<lambda>w. if w_conference_name w = cn \<and> w_booking_id w = k
                           then w\<lparr>position := p\<rparr> else w) ws))"

fun write_positions ::
  "(string \<times> int) list \<Rightarrow> string \<Rightarrow> waitlist_row list \<Rightarrow> waitlist_row list option" where
  "write_positions [] cn ws = Some ws"
| "write_positions ((k, p) # rest) cn ws =
     (case write_position ws cn k p of
        None \<Rightarrow> None
      | Some ws' \<Rightarrow> write_positions rest cn ws')"

section \<open>Waitlist queue operations\<close>

text \<open>
  \<^verbatim>\<open>processNextInWaitlist\<close>: the head is the first row of the conference's waitlist,
  joined with its booking, in ascending position order; its booking's \<^verbatim>\<open>confirm_by\<close>
  becomes one hour from now (\<^verbatim>\<open>Date.now() + 60 * 60 * 1000\<close>).
\<close>

definition joined_waitlist :: "db \<Rightarrow> string \<Rightarrow> waitlist_row list" where
  "joined_waitlist s cn =
     filter (\<lambda>w. list_ex (\<lambda>b. booking_id b = w_booking_id w) (bookings s))
       (waitlist_of s cn)"

definition waitlist_head :: "db \<Rightarrow> string \<Rightarrow> waitlist_row option" where
  "waitlist_head s cn =
     (case sort_key position (joined_waitlist s cn) of
        [] \<Rightarrow> None
      | w # _ \<Rightarrow> Some w)"

definition processNextInWaitlist :: "db \<Rightarrow> int \<Rightarrow> string \<Rightarrow> db" where
  "processNextInWaitlist s now cn =
     (case waitlist_head s cn of
        None \<Rightarrow> s
      | Some nextBooking \<Rightarrow>
          update_booking s (\<lambda>b. booking_id b = w_booking_id nextBooking)
            (\<lambda>b. b\<lparr>confirm_by := Some (now + 60 * 60 * 1000)\<rparr>))"

text \<open>
  \<^verbatim>\<open>removeUserFromAllWaitlists\<close>: the sub-select picks the requester's WAITLISTED
  bookings, outside the excluded conference when \<^verbatim>\<open>if (excludeConference)\<close> is
  truthy, that is for a non-empty name; their waitlist rows are deleted, then the
  bookings are set to CANCELED. No position is rewritten.
\<close>

definition displaced :: "string \<Rightarrow> string \<Rightarrow> booking \<Rightarrow> bool" where
  "displaced userId excludeConference b \<longleftrightarrow>
     user_id b = userId \<and> status b = WAITLISTED \<and>
     (excludeConference \<noteq> [] \<longrightarrow> conference_name b \<noteq> excludeConference)"

definition removeUserFromAllWaitlists :: "db \<Rightarrow> string \<Rightarrow> string \<Rightarrow> db" where
  "removeUserFromAllWaitlists s userId excludeConference =
     (let s1 = delete_waitlist s
                 (\<lambda>w. list_ex (\<lambda>b. booking_id b = w_booking_id w \<and>
                                    displaced userId excludeConference b) (bookings s))
      in update_booking s1 (displaced userId excludeConference)
           (\<lambda>b. b\<lparr>status := CANCELED\<rparr>))"

text \<open>
  \<^verbatim>\<open>reorderWaitlist\<close>: \<^verbatim>\<open>ROW_NUMBER() OVER (ORDER BY created_at)\<close> numbers the
  conference's waitlist rows from 1 in ascending \<^verbatim>\<open>created_at\<close> (rows with equal
  stamps in table order); \<open>row_numbers\<close> is that sub-select, a list of
  \<^verbatim>\<open>(booking_id, new_position)\<close>. The \<^verbatim>\<open>UPDATE\<close> joins it with the conference's waitlist
  rows on \<^verbatim>\<open>booking_id\<close> and writes each joined row's \<^verbatim>\<open>new_position\<close>, one row at a
  time. SQL leaves the order in which the joined rows are visited to the executor; it
  is the parameter \<open>visit\<close>, a rank of the booking identifiers: the rows are visited
  in ascending rank, rows of equal rank in the order of the sub-select.
\<close>

definition row_numbers :: "waitlist_row list \<Rightarrow> (string \<times> int) list" where
  "row_numbers ws =
     zip (map w_booking_id (sort_key w_created_at ws)) [1 .. int (length ws)]"

definition reorderWaitlist :: "(string \<Rightarrow> nat) \<Rightarrow> db \<Rightarrow> string \<Rightarrow> db option" where
  "reorderWaitlist visit s cn =
     (let reordered = row_numbers (waitlist_of s cn)
      in case write_positions (sort_key (\<lambda>(k, new_position). visit k) reordered) cn
                (waitlist s) of
           None \<Rightarrow> None
         | Some ws \<Rightarrow> Some (s\<lparr>waitlist := ws\<rparr>))"

section \<open>The allocation engine\<close>

text \<open>
  Every service method runs in one transaction and takes the clock reading \<open>now\<close>
  (one reading per call). A business-rule failure and a caught error both roll back:
  the method returns the database it was given. \<^verbatim>\<open>bookConference\<close> also takes the
  identifier that \<^verbatim>\<open>uuidv4()\<close> draws; the \<^verbatim>\<open>INSERT\<close> reads it as a UUID, the result
  carries it as drawn.
\<close>

definition book_confirmed :: "db \<Rightarrow> int \<Rightarrow> string \<Rightarrow> string \<Rightarrow> string \<Rightarrow> db option" where
  "book_confirmed s now bookingId cn uid =
     (case uuid_in bookingId of
        None \<Rightarrow> None
      | Some k \<Rightarrow>
     (case insert_booking s
             \<lparr>booking_id = k, conference_name = cn, user_id = uid,
              status = CONFIRMED, created_at = now, confirm_by = None\<rparr> of
        None \<Rightarrow> None
      | Some s1 \<Rightarrow>
          (case update_available_slots s1 cn (- 1) of
             None \<Rightarrow> None
           | Some s2 \<Rightarrow> Some (removeUserFromAllWaitlists s2 uid cn))))"

text \<open>
  The waitlisted branch computes \<^verbatim>\<open>COALESCE(MAX(position), 0) + 1\<close> in SQL, as an
  \<^verbatim>\<open>INTEGER\<close>: the addition raises when the greatest position is the greatest
  \<^verbatim>\<open>INTEGER\<close>.
\<close>

definition book_waitlisted ::
  "db \<Rightarrow> int \<Rightarrow> string \<Rightarrow> string \<Rightarrow> string \<Rightarrow> (int \<times> db) option" where
  "book_waitlisted s now bookingId cn uid =
     (case uuid_in bookingId of
        None \<Rightarrow> None
      | Some k \<Rightarrow>
     (case insert_booking s
             \<lparr>booking_id = k, conference_name = cn, user_id = uid,
              status = WAITLISTED, created_at = now, confirm_by = None\<rparr> of
        None \<Rightarrow> None
      | Some s1 \<Rightarrow>
          (let next_position = max_position s1 cn + 1
           in if next_position > int4_max
              then None
              else (case insert_waitlist s1
                           \<lparr>w_conference_name = cn, w_booking_id = k,
                            position = next_position, w_created_at = now\<rparr> of
                      None \<Rightarrow> None
                    | Some s2 \<Rightarrow> Some (next_position, s2)))))"

definition bookConference ::
  "db \<Rightarrow> int \<Rightarrow> string \<Rightarrow> string \<Rightarrow> string \<Rightarrow> result \<times> db" where
  "bookConference s now bookingId cn uid =
     (case getConferenceByName s cn of
        None \<Rightarrow> (Failure ''Conference not found'', s)
      | Some conference \<Rightarrow>
     (case getUserById s uid of
        None \<Rightarrow> (Failure ''User not found'', s)
      | Some user \<Rightarrow>
     (case hasConferenceStarted s cn now of
        None \<Rightarrow> (Failure ''Failed to book conference'', s)
      | Some True \<Rightarrow> (Failure ''Cannot book conference that has already started'', s)
      | Some False \<Rightarrow>
          if hasExistingBooking s uid cn
          then (Failure ''User already has a booking for this conference'', s)
          else if hasConflictingBooking s uid (start_time conference) (end_time conference)
          then (Failure ''User has conflicting booking at this time'', s)
          else if available_slots conference > 0
          then (case book_confirmed s now bookingId cn uid of
                  None \<Rightarrow> (Failure ''Failed to book conference'', s)
                | Some s' \<Rightarrow> (Success bookingId CONFIRMED None, s'))
          else (case book_waitlisted s now bookingId cn uid of
                  None \<Rightarrow> (Failure ''Failed to book conference'', s)
                | Some (next_position, s') \<Rightarrow>
                    (Success bookingId WAITLISTED (Some next_position), s')))))"

text \<open>
  \<^verbatim>\<open>confirmWaitlistBooking\<close> and \<^verbatim>\<open>cancelBooking\<close> read the booking joined with its
  conference, \<^verbatim>\<open>WHERE b.booking_id = $1\<close>. The route admits any text of 1 to 255
  characters as \<^verbatim>\<open>bookingId\<close>; the statement raises when the text is no UUID
  (\<open>None\<close>), and otherwise gives the joined row, if any (no row is
  \<^verbatim>\<open>Booking not found\<close>). The later statements of both methods are given the same text
  and select the same booking.
\<close>

definition booking_with_conference ::
  "db \<Rightarrow> string \<Rightarrow> (booking \<times> conference) option option" where
  "booking_with_conference s bookingId =
     (case uuid_in bookingId of
        None \<Rightarrow> None
      | Some k \<Rightarrow>
          Some (case find (\<lambda>b. booking_id b = k) (bookings s) of
                  None \<Rightarrow> None
                | Some b \<Rightarrow>
                    (case find (\<lambda>c. name c = conference_name b) (conferences s) of
                       None \<Rightarrow> None
                     | Some c \<Rightarrow> Some (b, c))))"

definition confirm_writes :: "db \<Rightarrow> int \<Rightarrow> booking \<Rightarrow> db option" where
  "confirm_writes s now b =
     (let s1 = update_booking s (\<lambda>x. booking_id x = booking_id b)
                 (\<lambda>x. x\<lparr>status := CONFIRMED, confirm_by := None\<rparr>)
      in case update_available_slots s1 (conference_name b) (- 1) of
           None \<Rightarrow> None
         | Some s2 \<Rightarrow>
             (let s3 = delete_waitlist s2 (\<lambda>w. w_booking_id w = booking_id b);
                  s4 = removeUserFromAllWaitlists s3 (user_id b) (conference_name b)
              in Some (processNextInWaitlist s4 now (conference_name b))))"

definition confirmWaitlistBooking :: "db \<Rightarrow> int \<Rightarrow> string \<Rightarrow> result \<times> db" where
  "confirmWaitlistBooking s now bookingId =
     (case booking_with_conference s bookingId of
        None \<Rightarrow> (Failure ''Failed to confirm booking'', s)
      | Some None \<Rightarrow> (Failure ''Booking not found'', s)
      | Some (Some (b, c)) \<Rightarrow>
          if status b \<noteq> WAITLISTED
          then (Failure ''Booking is not in waitlisted status'', s)
          else if start_time c \<le> now
          then (Failure ''Cannot confirm booking for conference that has already started'', s)
          else if (case confirm_by b of None \<Rightarrow> False | Some deadline \<Rightarrow> now > deadline)
          then (Failure ''Confirmation deadline has passed'', s)
          else if available_slots c \<le> 0
          then (Failure ''No slots available to confirm booking'', s)
          else (case confirm_writes s now b of
                  None \<Rightarrow> (Failure ''Failed to confirm booking'', s)
                | Some s' \<Rightarrow> (Success bookingId CONFIRMED None, s')))"

text \<open>
  The statements of \<^verbatim>\<open>cancelBooking\<close> after its checks. \<open>visit\<close> is the order in which
  the \<^verbatim>\<open>UPDATE\<close> of \<^verbatim>\<open>reorderWaitlist\<close> visits its rows.
\<close>

definition cancel_writes :: "(string \<Rightarrow> nat) \<Rightarrow> db \<Rightarrow> int \<Rightarrow> booking \<Rightarrow> db option" where
  "cancel_writes visit s now b =
     (let s1 = update_booking s (\<lambda>x. booking_id x = booking_id b)
                 (\<lambda>x. x\<lparr>status := CANCELED\<rparr>)
      in case (if status b = CONFIRMED
               then (case update_available_slots s1 (conference_name b) 1 of
                       None \<Rightarrow> None
                     | Some s2 \<Rightarrow> Some (processNextInWaitlist s2 now (conference_name b)))
               else Some s1) of
           None \<Rightarrow> None
         | Some s3 \<Rightarrow>
             if status b = WAITLISTED
             then reorderWaitlist visit
                    (delete_waitlist s3 (\<lambda>w. w_booking_id w = booking_id b))
                    (conference_name b)
             else Some s3)"

definition cancelBooking :: "(string \<Rightarrow> nat) \<Rightarrow> db \<Rightarrow> int \<Rightarrow> string \<Rightarrow> result \<times> db" where
  "cancelBooking visit s now bookingId =
     (case booking_with_conference s bookingId of
        None \<Rightarrow> (Failure ''Failed to cancel booking'', s)
      | Some None \<Rightarrow> (Failure ''Booking not found'', s)
      | Some (Some (b, c)) \<Rightarrow>
          if status b = CANCELED
          then (Failure ''Booking is already canceled'', s)
          else if start_time c \<le> now
          then (Failure ''Cannot cancel booking for conference that has already started'', s)
          else (case cancel_writes visit s now b of
                  None \<Rightarrow> (Failure ''Failed to cancel booking'', s)
                | Some s' \<Rightarrow> (Success bookingId CANCELED None, s')))"

section \<open>The reconciliation sweeps\<close>

text \<open>
  A sweep returns nothing: it commits, or it rolls back and rethrows.
\<close>

datatype sweep_outcome = Committed | Thrown

text \<open>
  \<^verbatim>\<open>handleExpiredWaitlistBookings\<close> selects the expired bookings once, then for each
  of them in turn: moves its waitlist row to \<^verbatim>\<open>MAX(position) + 1\<close> of its conference,
  clears its deadline and promotes the head of that conference. The new position is
  computed in JavaScript and given to the \<^verbatim>\<open>UPDATE\<close>, which raises when it does not
  fit \<^verbatim>\<open>INTEGER\<close> or when another row of the waitlist of a row it writes has that
  position.

  The \<^verbatim>\<open>SELECT\<close> has no \<^verbatim>\<open>ORDER BY\<close>: the order of its rows is PostgreSQL's. It is the
  parameter \<open>rowOrder\<close>, a rank of the booking identifiers: the expired bookings are
  taken in ascending rank, bookings of equal rank in table order.
\<close>

definition expired :: "int \<Rightarrow> booking \<Rightarrow> bool" where
  "expired now b \<longleftrightarrow>
     status b = WAITLISTED \<and> (case confirm_by b of None \<Rightarrow> False | Some d \<Rightarrow> d < now)"

definition requeue_expired :: "int \<Rightarrow> booking \<Rightarrow> db \<Rightarrow> db option" where
  "requeue_expired now expiredBooking s =
     (let newPosition = max_position s (conference_name expiredBooking) + 1
      in if newPosition > int4_max
            \<or> list_ex (\<lambda>w. w_booking_id w = booking_id expiredBooking \<and>
                           position_taken (waitlist s) (w_conference_name w)
                             (w_booking_id w) newPosition)
                 (waitlist s)
         then None
         else
           (let s1 = s\<lparr>waitlist :=
                         map (\<lambda>w. if w_booking_id w = booking_id expiredBooking
                                   then w\<lparr>position := newPosition\<rparr> else w)
                           (waitlist s)\<rparr>;
                s2 = update_booking s1 (\<lambda>b. booking_id b = booking_id expiredBooking)
                       (\<lambda>b. b\<lparr>confirm_by := None\<rparr>)
            in Some (processNextInWaitlist s2 now (conference_name expiredBooking))))"

fun requeue_all :: "int \<Rightarrow> booking list \<Rightarrow> db \<Rightarrow> db option" where
  "requeue_all now [] s = Some s"
| "requeue_all now (expiredBooking # rows) s =
     (case requeue_expired now expiredBooking s of
        None \<Rightarrow> None
      | Some s' \<Rightarrow> requeue_all now rows s')"

definition handleExpiredWaitlistBookings ::
  "(string \<Rightarrow> nat) \<Rightarrow> db \<Rightarrow> int \<Rightarrow> sweep_outcome \<times> db" where
  "handleExpiredWaitlistBookings rowOrder s now =
     (case requeue_all now
             (sort_key (\<lambda>b. rowOrder (booking_id b)) (filter (expired now) (bookings s))) s of
        None \<Rightarrow> (Thrown, s)
      | Some s' \<Rightarrow> (Committed, s'))"

text \<open>
  \<^verbatim>\<open>autoCancelForStartedConferences\<close> opens one transaction, loops over the started
  conferences and commits after the loop; an error raised by any statement reaches the
  single \<^verbatim>\<open>catch\<close>, which rolls the transaction back and rethrows. The storage
  failures are a parameter: \<open>faults cn\<close> says that a statement run for conference
  \<open>cn\<close> raises.
\<close>

definition cancel_waitlisted_of :: "db \<Rightarrow> string \<Rightarrow> db" where
  "cancel_waitlisted_of s cn =
     delete_waitlist
       (update_booking s (\<lambda>b. conference_name b = cn \<and> status b = WAITLISTED)
          (\<lambda>b. b\<lparr>status := CANCELED\<rparr>))
       (\<lambda>w. w_conference_name w = cn)"

fun autoCancel_loop :: "(string \<Rightarrow> bool) \<Rightarrow> conference list \<Rightarrow> db \<Rightarrow> db option" where
  "autoCancel_loop faults [] s = Some s"
| "autoCancel_loop faults (c # cs) s =
     (if faults (name c) then None
      else autoCancel_loop faults cs (cancel_waitlisted_of s (name c)))"

definition autoCancelForStartedConferences ::
  "(string \<Rightarrow> bool) \<Rightarrow> db \<Rightarrow> int \<Rightarrow> sweep_outcome \<times> db" where
  "autoCancelForStartedConferences faults s now =
     (case autoCancel_loop faults (getStartedConferences s now) s of
        None \<Rightarrow> (Thrown, s)
      | Some s' \<Rightarrow> (Committed, s'))"

text \<open>The mutating operations of the engine, as one step function on the database.\<close>

datatype engine_op =
    Book string string string
  | Confirm string
  | Cancel "string \<Rightarrow> nat" string
  | HandleExpired "string \<Rightarrow> nat"
  | AutoCancel "string \<Rightarrow> bool"

fun engine_step :: "int \<Rightarrow> engine_op \<Rightarrow> db \<Rightarrow> db" where
  "engine_step now (Book bookingId cn uid) s = snd (bookConference s now bookingId cn uid)"
| "engine_step now (Confirm bookingId) s = snd (confirmWaitlistBooking s now bookingId)"
| "engine_step now (Cancel visit bookingId) s = snd (cancelBooking visit s now bookingId)"
| "engine_step now (HandleExpired rowOrder) s =
     snd (handleExpiredWaitlistBookings rowOrder s now)"
| "engine_step now (AutoCancel faults) s = snd (autoCancelForStartedConferences faults s now)"

section \<open>Properties of a database state\<close>

text \<open>
  The constraints that \<^verbatim>\<open>createTables\<close> declares, over the modelled columns: primary
  keys, foreign keys, \<^verbatim>\<open>UNIQUE\<close> and \<^verbatim>\<open>CHECK\<close> (twelve hours are 43200000 ms), and the
  \<^verbatim>\<open>UUID\<close> type of \<^verbatim>\<open>bookings.booking_id\<close>, whose values are read back as PostgreSQL
  prints them (with the foreign key, the same holds of \<^verbatim>\<open>waitlist.booking_id\<close>).
  PostgreSQL admits no state that violates them.
\<close>

definition conference_checks :: "conference \<Rightarrow> bool" where
  "conference_checks c \<longleftrightarrow>
     total_slots c > 0 \<and> available_slots c \<ge> 0 \<and> end_time c > start_time c \<and>
     end_time c \<le> start_time c + 43200000 \<and> available_slots c \<le> total_slots c"

definition schema_constraints :: "db \<Rightarrow> bool" where
  "schema_constraints s \<longleftrightarrow>
     distinct (map name (conferences s)) \<and>
     list_all conference_checks (conferences s) \<and>
     distinct (users s) \<and>
     list_all (\<lambda>b. uuid_in (booking_id b) = Some (booking_id b)) (bookings s) \<and>
     distinct (map booking_id (bookings s)) \<and>
     distinct (map (\<lambda>b. (conference_name b, user_id b)) (bookings s)) \<and>
     list_all (\<lambda>b. conference_name b \<in> set (map name (conferences s)) \<and>
                  user_id b \<in> set (users s)) (bookings s) \<and>
     distinct (map (\<lambda>w. (w_conference_name w, w_booking_id w)) (waitlist s)) \<and>
     distinct (map (\<lambda>w. (w_conference_name w, position w)) (waitlist s)) \<and>
     list_all (\<lambda>w. w_conference_name w \<in> set (map name (conferences s)) \<and>
                  w_booking_id w \<in> set (map booking_id (bookings s))) (waitlist s)"

text \<open>The capacity ledger: seats left are the total minus the CONFIRMED bookings.\<close>

definition is_confirmed_for :: "string \<Rightarrow> booking \<Rightarrow> bool" where
  "is_confirmed_for cn b \<longleftrightarrow> conference_name b = cn \<and> status b = CONFIRMED"

definition confirmed_count :: "db \<Rightarrow> string \<Rightarrow> int" where
  "confirmed_count s cn = int (length (filter (is_confirmed_for cn) (bookings s)))"

definition ledger_invariant :: "db \<Rightarrow> bool" where
  "ledger_invariant s \<longleftrightarrow>
     list_all (\<lambda>c. available_slots c = total_slots c - confirmed_count s (name c))
       (conferences s)"

definition booking_ids_unique :: "db \<Rightarrow> bool" where
  "booking_ids_unique s \<longleftrightarrow> distinct (map booking_id (bookings s))"

definition ledger_ok :: "db \<Rightarrow> bool" where
  "ledger_ok s \<longleftrightarrow> booking_ids_unique s \<and> ledger_invariant s"

text \<open>
  Dense positions: the positions of a conference's waitlist rows, in ascending order,
  are \<open>1, \<dots>, N\<close>. \<open>dense_positions\<close> takes \<open>N\<close> as the number of rows,
  \<open>waitlist_invariant\<close> as the number of WAITLISTED bookings of the conference.
\<close>

definition dense_positions :: "db \<Rightarrow> string \<Rightarrow> bool" where
  "dense_positions s cn \<longleftrightarrow>
     sort (map position (waitlist_of s cn)) = [1 .. int (length (waitlist_of s cn))]"

definition waitlisted_count :: "db \<Rightarrow> string \<Rightarrow> int" where
  "waitlisted_count s cn =
     int (length (filter (\<lambda>b. conference_name b = cn \<and> status b = WAITLISTED) (bookings s)))"

definition waitlist_invariant :: "db \<Rightarrow> string \<Rightarrow> bool" where
  "waitlist_invariant s cn \<longleftrightarrow>
     sort (map position (waitlist_of s cn)) = [1 .. waitlisted_count s cn]"

text \<open>Reading one booking by its identifier.\<close>

definition booking_of :: "db \<Rightarrow> string \<Rightarrow> booking option" where
  "booking_of s bookingId = find (\<lambda>b. booking_id b = bookingId) (bookings s)"

definition status_of :: "db \<Rightarrow> string \<Rightarrow> status option" where
  "status_of s bookingId = map_option status (booking_of s bookingId)"

definition confirm_by_of :: "db \<Rightarrow> string \<Rightarrow> int option option" where
  "confirm_by_of s bookingId = map_option confirm_by (booking_of s bookingId)"

text \<open>
  What a committed start sweep leaves for a set of started conference names: their
  WAITLISTED bookings CANCELED and their waitlist rows gone, everything else as it was.
\<close>

definition swept :: "db \<Rightarrow> string set \<Rightarrow> db" where
  "swept s started =
     s\<lparr>bookings := map (\<lambda>b. if conference_name b \<in> started \<and> status b = WAITLISTED
                             then b\<lparr>status := CANCELED\<rparr> else b) (bookings s),
       waitlist := filter (\<lambda>w. w_conference_name w \<notin> started) (waitlist s)\<rparr>"

text \<open>
  The bookings that displacement is about, in the words of the specification: the
  WAITLISTED bookings that a requester holds for conferences other than the given one.
\<close>

definition held_elsewhere :: "string \<Rightarrow> string \<Rightarrow> booking \<Rightarrow> bool" where
  "held_elsewhere uid cn b \<longleftrightarrow>
     user_id b = uid \<and> status b = WAITLISTED \<and> conference_name b \<noteq> cn"

text \<open>
  The outcome of a promotion for a conference: its waitlist is empty, or the head, a
  row of the conference with the least position, belongs to a booking whose
  \<^verbatim>\<open>confirm_by\<close> is the given deadline.
\<close>

definition head_has_deadline :: "db \<Rightarrow> string \<Rightarrow> int \<Rightarrow> bool" where
  "head_has_deadline s cn deadline \<longleftrightarrow>
     (case waitlist_head s cn of
        None \<Rightarrow> waitlist_of s cn = []
      | Some w \<Rightarrow>
          w \<in> set (waitlist_of s cn) \<and>
          list_all (\<lambda>w'. position w \<le> position w') (waitlist_of s cn) \<and>
          confirm_by_of s (w_booking_id w) = Some (Some deadline))"

text \<open>
  Displacement between a database \<open>s\<close> and its successor \<open>s'\<close>, for the requester
  \<open>uid\<close> who gained the CONFIRMED booking \<open>k\<close> of conference \<open>cn\<close>: every booking the
  requester held elsewhere is CANCELED in \<open>s'\<close> and has no waitlist row there; the
  waitlist of \<open>s'\<close> is the waitlist of \<open>s\<close> without the rows of those bookings and of
  booking \<open>k\<close>, every remaining row as it was, position included.
\<close>

definition displacement_done :: "db \<Rightarrow> db \<Rightarrow> string \<Rightarrow> string \<Rightarrow> string \<Rightarrow> bool" where
  "displacement_done s s' k uid cn \<longleftrightarrow>
     list_all (\<lambda>x. held_elsewhere uid cn x \<longrightarrow>
                  status_of s' (booking_id x) = Some CANCELED \<and>
                  \<not> list_ex (\<lambda>w. w_booking_id w = booking_id x) (waitlist s'))
       (bookings s) \<and>
     waitlist s' =
       filter (\<lambda>w. w_booking_id w \<noteq> k \<and>
                   \<not> list_ex (\<lambda>x. booking_id x = w_booking_id w \<and> held_elsewhere uid cn x)
                        (bookings s))
         (waitlist s)"

section \<open>Example databases\<close>

text \<open>
  Two conferences of one seat each, \<open>K\<close> before \<open>L\<close>, and four users. The later
  states are what the engine makes of \<open>db_fresh\<close>; the runs are the lemmas named
  \<open>\<dots>_reached\<close> below. The booking identifiers are five version-4 UUIDs.
\<close>

abbreviation uuid1 :: string where "uuid1 \<equiv> ''00000000-0000-4000-8000-000000000001''"
abbreviation uuid2 :: string where "uuid2 \<equiv> ''00000000-0000-4000-8000-000000000002''"
abbreviation uuid3 :: string where "uuid3 \<equiv> ''00000000-0000-4000-8000-000000000003''"
abbreviation uuid4 :: string where "uuid4 \<equiv> ''00000000-0000-4000-8000-000000000004''"
abbreviation uuid5 :: string where "uuid5 \<equiv> ''00000000-0000-4000-8000-000000000005''"

text \<open>
  The rank under which \<^verbatim>\<open>reorderWaitlist\<close> visits its rows in the order of its
  sub-select, and under which the expiry sweep takes the expired bookings in table
  order.
\<close>

abbreviation table_order :: "string \<Rightarrow> nat" where "table_order \<equiv> (\<lambda>k. 0)"

definition db_fresh :: db where
  "db_fresh =
     \<lparr>conferences =
        [\<lparr>name = ''K'', start_time = 10000000, end_time = 20000000,
          total_slots = 1, available_slots = 1\<rparr>,
         \<lparr>name = ''L'', start_time = 30000000, end_time = 40000000,
          total_slots = 1, available_slots = 1\<rparr>],
      users = [''a'', ''b'', ''c'', ''d''], bookings = [], waitlist = []\<rparr>"

text \<open>\<open>K\<close> is full: \<open>a\<close> holds the seat, \<open>b\<close> waits at position 1.\<close>

definition db_full :: db where
  "db_full =
     \<lparr>conferences =
        [\<lparr>name = ''K'', start_time = 10000000, end_time = 20000000,
          total_slots = 1, available_slots = 0\<rparr>,
         \<lparr>name = ''L'', start_time = 30000000, end_time = 40000000,
          total_slots = 1, available_slots = 1\<rparr>],
      users = [''a'', ''b'', ''c'', ''d''],
      bookings =
        [\<lparr>booking_id = uuid1, conference_name = ''K'', user_id = ''a'',
          status = CONFIRMED, created_at = 1, confirm_by = None\<rparr>,
         \<lparr>booking_id = uuid2, conference_name = ''K'', user_id = ''b'',
          status = WAITLISTED, created_at = 2, confirm_by = None\<rparr>],
      waitlist =
        [\<lparr>w_conference_name = ''K'', w_booking_id = uuid2, position = 1,
          w_created_at = 2\<rparr>]\<rparr>"

text \<open>\<open>a\<close> has canceled at time 3: the seat is free and \<open>b\<close> has a deadline.\<close>

definition db_promoted :: db where
  "db_promoted =
     \<lparr>conferences =
        [\<lparr>name = ''K'', start_time = 10000000, end_time = 20000000,
          total_slots = 1, available_slots = 1\<rparr>,
         \<lparr>name = ''L'', start_time = 30000000, end_time = 40000000,
          total_slots = 1, available_slots = 1\<rparr>],
      users = [''a'', ''b'', ''c'', ''d''],
      bookings =
        [\<lparr>booking_id = uuid1, conference_name = ''K'', user_id = ''a'',
          status = CANCELED, created_at = 1, confirm_by = None\<rparr>,
         \<lparr>booking_id = uuid2, conference_name = ''K'', user_id = ''b'',
          status = WAITLISTED, created_at = 2, confirm_by = Some 3600003\<rparr>],
      waitlist =
        [\<lparr>w_conference_name = ''K'', w_booking_id = uuid2, position = 1,
          w_created_at = 2\<rparr>]\<rparr>"

text \<open>Two requesters wait for \<open>K\<close> when \<open>a\<close> cancels at time 4.\<close>

definition db_queue :: db where
  "db_queue =
     \<lparr>conferences =
        [\<lparr>name = ''K'', start_time = 10000000, end_time = 20000000,
          total_slots = 1, available_slots = 1\<rparr>,
         \<lparr>name = ''L'', start_time = 30000000, end_time = 40000000,
          total_slots = 1, available_slots = 1\<rparr>],
      users = [''a'', ''b'', ''c'', ''d''],
      bookings =
        [\<lparr>booking_id = uuid1, conference_name = ''K'', user_id = ''a'',
          status = CANCELED, created_at = 1, confirm_by = None\<rparr>,
         \<lparr>booking_id = uuid2, conference_name = ''K'', user_id = ''b'',
          status = WAITLISTED, created_at = 2, confirm_by = Some 3600004\<rparr>,
         \<lparr>booking_id = uuid3, conference_name = ''K'', user_id = ''c'',
          status = WAITLISTED, created_at = 3, confirm_by = None\<rparr>],
      waitlist =
        [\<lparr>w_conference_name = ''K'', w_booking_id = uuid2, position = 1,
          w_created_at = 2\<rparr>,
         \<lparr>w_conference_name = ''K'', w_booking_id = uuid3, position = 2,
          w_created_at = 3\<rparr>]\<rparr>"

text \<open>\<open>L\<close> is full with \<open>b\<close> and \<open>c\<close> waiting, \<open>K\<close> has its seat free.\<close>

definition db_displace :: db where
  "db_displace =
     \<lparr>conferences =
        [\<lparr>name = ''K'', start_time = 10000000, end_time = 20000000,
          total_slots = 1, available_slots = 1\<rparr>,
         \<lparr>name = ''L'', start_time = 30000000, end_time = 40000000,
          total_slots = 1, available_slots = 0\<rparr>],
      users = [''a'', ''b'', ''c'', ''d''],
      bookings =
        [\<lparr>booking_id = uuid1, conference_name = ''L'', user_id = ''a'',
          status = CONFIRMED, created_at = 1, confirm_by = None\<rparr>,
         \<lparr>booking_id = uuid2, conference_name = ''L'', user_id = ''b'',
          status = WAITLISTED, created_at = 2, confirm_by = None\<rparr>,
         \<lparr>booking_id = uuid3, conference_name = ''L'', user_id = ''c'',
          status = WAITLISTED, created_at = 3, confirm_by = None\<rparr>],
      waitlist =
        [\<lparr>w_conference_name = ''L'', w_booking_id = uuid2, position = 1,
          w_created_at = 2\<rparr>,
         \<lparr>w_conference_name = ''L'', w_booking_id = uuid3, position = 2,
          w_created_at = 3\<rparr>]\<rparr>"

text \<open>
  From \<open>db_promoted\<close>: \<open>c\<close> has booked the free seat of \<open>K\<close> at time 4 and the
  expiry sweep has run at time 3600005, after the deadline of \<open>b\<close>.
\<close>

definition db_requeued :: db where
  "db_requeued =
     \<lparr>conferences =
        [\<lparr>name = ''K'', start_time = 10000000, end_time = 20000000,
          total_slots = 1, available_slots = 0\<rparr>,
         \<lparr>name = ''L'', start_time = 30000000, end_time = 40000000,
          total_slots = 1, available_slots = 1\<rparr>],
      users = [''a'', ''b'', ''c'', ''d''],
      bookings =
        [\<lparr>booking_id = uuid1, conference_name = ''K'', user_id = ''a'',
          status = CANCELED, created_at = 1, confirm_by = None\<rparr>,
         \<lparr>booking_id = uuid2, conference_name = ''K'', user_id = ''b'',
          status = WAITLISTED, created_at = 2, confirm_by = Some 7200005\<rparr>,
         \<lparr>booking_id = uuid3, conference_name = ''K'', user_id = ''c'',
          status = CONFIRMED, created_at = 4, confirm_by = None\<rparr>],
      waitlist =
        [\<lparr>w_conference_name = ''K'', w_booking_id = uuid2, position = 2,
          w_created_at = 2\<rparr>]\<rparr>"

text \<open>
  \<open>b\<close> waits for both conferences, first in each waitlist, \<open>d\<close> waits behind it for
  \<open>L\<close>; \<open>a\<close> has canceled its seat of \<open>K\<close> at time 6.
\<close>

definition db_two_lists :: db where
  "db_two_lists =
     \<lparr>conferences =
        [\<lparr>name = ''K'', start_time = 10000000, end_time = 20000000,
          total_slots = 1, available_slots = 1\<rparr>,
         \<lparr>name = ''L'', start_time = 30000000, end_time = 40000000,
          total_slots = 1, available_slots = 0\<rparr>],
      users = [''a'', ''b'', ''c'', ''d''],
      bookings =
        [\<lparr>booking_id = uuid1, conference_name = ''K'', user_id = ''a'',
          status = CANCELED, created_at = 1, confirm_by = None\<rparr>,
         \<lparr>booking_id = uuid2, conference_name = ''K'', user_id = ''b'',
          status = WAITLISTED, created_at = 2, confirm_by = Some 3600006\<rparr>,
         \<lparr>booking_id = uuid3, conference_name = ''L'', user_id = ''c'',
          status = CONFIRMED, created_at = 3, confirm_by = None\<rparr>,
         \<lparr>booking_id = uuid4, conference_name = ''L'', user_id = ''b'',
          status = WAITLISTED, created_at = 4, confirm_by = None\<rparr>,
         \<lparr>booking_id = uuid5, conference_name = ''L'', user_id = ''d'',
          status = WAITLISTED, created_at = 5, confirm_by = None\<rparr>],
      waitlist =
        [\<lparr>w_conference_name = ''K'', w_booking_id = uuid2, position = 1,
          w_created_at = 2\<rparr>,
         \<lparr>w_conference_name = ''L'', w_booking_id = uuid4, position = 1,
          w_created_at = 4\<rparr>,
         \<lparr>w_conference_name = ''L'', w_booking_id = uuid5, position = 2,
          w_created_at = 5\<rparr>]\<rparr>"


text \<open>
  \<open>K\<close> is full and three requesters wait for it: \<open>b\<close>, \<open>c\<close> and \<open>d\<close>, at positions
  1, 2 and 3.
\<close>

definition db_three :: db where
  "db_three =
     \<lparr>conferences =
        [\<lparr>name = ''K'', start_time = 10000000, end_time = 20000000,
          total_slots = 1, available_slots = 0\<rparr>,
         \<lparr>name = ''L'', start_time = 30000000, end_time = 40000000,
          total_slots = 1, available_slots = 1\<rparr>],
      users = [''a'', ''b'', ''c'', ''d''],
      bookings =
        [\<lparr>booking_id = uuid1, conference_name = ''K'', user_id = ''a'',
          status = CONFIRMED, created_at = 1, confirm_by = None\<rparr>,
         \<lparr>booking_id = uuid2, conference_name = ''K'', user_id = ''b'',
          status = WAITLISTED, created_at = 2, confirm_by = None\<rparr>,
         \<lparr>booking_id = uuid3, conference_name = ''K'', user_id = ''c'',
          status = WAITLISTED, created_at = 3, confirm_by = None\<rparr>,
         \<lparr>booking_id = uuid4, conference_name = ''K'', user_id = ''d'',
          status = WAITLISTED, created_at = 4, confirm_by = None\<rparr>],
      waitlist =
        [\<lparr>w_conference_name = ''K'', w_booking_id = uuid2, position = 1,
          w_created_at = 2\<rparr>,
         \<lparr>w_conference_name = ''K'', w_booking_id = uuid3, position = 2,
          w_created_at = 3\<rparr>,
         \<lparr>w_conference_name = ''K'', w_booking_id = uuid4, position = 3,
          w_created_at = 4\<rparr>]\<rparr>"

text \<open>
  \<open>db_full\<close> with the waiting row of \<open>b\<close> at the greatest position an \<^verbatim>\<open>INTEGER\<close>
  column holds.
\<close>

definition db_last_position :: db where
  "db_last_position =
     \<lparr>conferences =
        [\<lparr>name = ''K'', start_time = 10000000, end_time = 20000000,
          total_slots = 1, available_slots = 0\<rparr>,
         \<lparr>name = ''L'', start_time = 30000000, end_time = 40000000,
          total_slots = 1, available_slots = 1\<rparr>],
      users = [''a'', ''b'', ''c'', ''d''],
      bookings =
        [\<lparr>booking_id = uuid1, conference_name = ''K'', user_id = ''a'',
          status = CONFIRMED, created_at = 1, confirm_by = None\<rparr>,
         \<lparr>booking_id = uuid2, conference_name = ''K'', user_id = ''b'',
          status = WAITLISTED, created_at = 2, confirm_by = None\<rparr>],
      waitlist =
        [\<lparr>w_conference_name = ''K'', w_booking_id = uuid2, position = 2147483647,
          w_created_at = 2\<rparr>]\<rparr>"

section \<open>Evaluating the engine on a concrete database\<close>

lemmas uuid_defs =
  uuid_in_def uuid_out_def isxdigit_def hex_lower_def hyphen_may_follow_def

lemmas engine_defs =
  getConferenceByName_def getUserById_def hasConferenceStarted_def getStartedConferences_def
  hasExistingBooking_def hasConflictingBooking_def insert_booking_def insert_waitlist_def
  update_available_slots_def update_booking_def delete_waitlist_def waitlist_of_def
  max_position_def int4_max_def position_taken_def write_position_def
  joined_waitlist_def waitlist_head_def processNextInWaitlist_def displaced_def
  removeUserFromAllWaitlists_def row_numbers_def reorderWaitlist_def book_confirmed_def
  book_waitlisted_def bookConference_def booking_with_conference_def confirm_writes_def
  confirmWaitlistBooking_def cancel_writes_def cancelBooking_def expired_def
  requeue_expired_def handleExpiredWaitlistBookings_def cancel_waitlisted_of_def
  autoCancelForStartedConferences_def

lemmas state_defs =
  conference_checks_def schema_constraints_def is_confirmed_for_def confirmed_count_def
  ledger_invariant_def booking_ids_unique_def dense_positions_def waitlisted_count_def
  waitlist_invariant_def booking_of_def status_of_def confirm_by_of_def

lemma example_uuids:
  "uuid_in uuid1 = Some uuid1" "uuid_in uuid2 = Some uuid2" "uuid_in uuid3 = Some uuid3"
  "uuid_in uuid4 = Some uuid4" "uuid_in uuid5 = Some uuid5"
  by (simp_all add: uuid_defs)

lemma db_full_reached:
  "engine_step 2 (Book uuid2 ''K'' ''b'') (engine_step 1 (Book uuid1 ''K'' ''a'') db_fresh)
   = db_full"
  by (simp add: db_fresh_def db_full_def engine_defs example_uuids)

lemma db_promoted_reached: "engine_step 3 (Cancel visit uuid1) db_full = db_promoted"
  by (simp add: db_full_def db_promoted_def engine_defs example_uuids)

lemma db_queue_reached:
  "engine_step 4 (Cancel visit uuid1) (engine_step 3 (Book uuid3 ''K'' ''c'') db_full)
   = db_queue"
  by (simp add: db_full_def db_queue_def engine_defs example_uuids)

lemma db_displace_reached:
  "engine_step 3 (Book uuid3 ''L'' ''c'')
     (engine_step 2 (Book uuid2 ''L'' ''b'') (engine_step 1 (Book uuid1 ''L'' ''a'') db_fresh))
   = db_displace"
  by (simp add: db_fresh_def db_displace_def engine_defs example_uuids)

lemma db_requeued_reached:
  "engine_step 3600005 (HandleExpired rowOrder)
     (engine_step 4 (Book uuid3 ''K'' ''c'') db_promoted)
   = db_requeued"
  by (simp add: db_promoted_def db_requeued_def engine_defs example_uuids)

lemma db_two_lists_reached:
  "engine_step 6 (Cancel visit uuid1)
     (engine_step 5 (Book uuid5 ''L'' ''d'')
        (engine_step 4 (Book uuid4 ''L'' ''b'') (engine_step 3 (Book uuid3 ''L'' ''c'') db_full)))
   = db_two_lists"
  by (simp add: db_full_def db_two_lists_def engine_defs example_uuids)

lemma db_three_reached:
  "engine_step 4 (Book uuid4 ''K'' ''d'') (engine_step 3 (Book uuid3 ''K'' ''c'') db_full)
   = db_three"
  by (simp add: db_full_def db_three_def engine_defs example_uuids)

lemma examples_satisfy_schema:
  "schema_constraints db_fresh" "schema_constraints db_full" "schema_constraints db_promoted"
  "schema_constraints db_queue" "schema_constraints db_displace"
  "schema_constraints db_requeued" "schema_constraints db_two_lists"
  "schema_constraints db_three" "schema_constraints db_last_position"
  by (simp_all add: db_fresh_def db_full_def db_promoted_def db_queue_def db_displace_def
        db_requeued_def db_two_lists_def db_three_def db_last_position_def
        schema_constraints_def conference_checks_def example_uuids)

section \<open>The capacity ledger is an invariant of the engine\<close>

text \<open>
  The ledger reads the conferences and, of the bookings, their identifiers,
  conferences and whether they are CONFIRMED. A statement that leaves these alone
  leaves the ledger alone.
\<close>

lemma ledger_ok_cong:
  assumes "conferences s' = conferences s"
    and "map booking_id (bookings s') = map booking_id (bookings s)"
    and "\<And>cn. confirmed_count s' cn = confirmed_count s cn"
  shows "ledger_ok s' = ledger_ok s"
  using assms by (simp add: ledger_ok_def ledger_invariant_def booking_ids_unique_def)

lemma confirmed_count_update_booking:
  assumes "\<And>b. b \<in> set (bookings s) \<Longrightarrow> P b \<Longrightarrow> is_confirmed_for cn (f b) = is_confirmed_for cn b"
  shows "confirmed_count (update_booking s P f) cn = confirmed_count s cn"
proof -
  have "filter (is_confirmed_for cn \<circ> (\<lambda>b. if P b then f b else b)) (bookings s)
        = filter (is_confirmed_for cn) (bookings s)"
    by (rule filter_cong) (auto simp: assms)
  then show ?thesis
    by (simp add: confirmed_count_def update_booking_def)
qed

lemma ledger_ok_update_booking:
  assumes "\<And>b. P b \<Longrightarrow> booking_id (f b) = booking_id b \<and> conference_name (f b) = conference_name b
              \<and> (status (f b) = CONFIRMED \<longleftrightarrow> status b = CONFIRMED)"
  shows "ledger_ok (update_booking s P f) = ledger_ok s"
proof (rule ledger_ok_cong)
  show "conferences (update_booking s P f) = conferences s"
    by (simp add: update_booking_def)
  show "map booking_id (bookings (update_booking s P f)) = map booking_id (bookings s)"
    using assms by (simp add: update_booking_def)
  show "confirmed_count (update_booking s P f) cn = confirmed_count s cn" for cn
    by (rule confirmed_count_update_booking) (simp add: is_confirmed_for_def assms)
qed

lemma ledger_ok_waitlist_upd: "ledger_ok (s\<lparr>waitlist := ws\<rparr>) = ledger_ok s"
  by (rule ledger_ok_cong) (simp_all add: confirmed_count_def)

lemma ledger_ok_processNext: "ledger_ok (processNextInWaitlist s now cn) = ledger_ok s"
  by (simp add: processNextInWaitlist_def ledger_ok_update_booking split: option.splits)

lemma ledger_ok_reorder: "reorderWaitlist visit s cn = Some s' \<Longrightarrow> ledger_ok s' = ledger_ok s"
  by (auto simp: reorderWaitlist_def Let_def ledger_ok_waitlist_upd split: option.splits)

lemma ledger_ok_delete_waitlist: "ledger_ok (delete_waitlist s P) = ledger_ok s"
  by (simp add: delete_waitlist_def ledger_ok_waitlist_upd)

lemma ledger_ok_cancel_waitlisted:
  assumes "\<And>b. P b \<Longrightarrow> status b = WAITLISTED"
  shows "ledger_ok (update_booking s P (\<lambda>b. b\<lparr>status := CANCELED\<rparr>)) = ledger_ok s"
  by (rule ledger_ok_update_booking) (auto dest: assms)

lemma ledger_ok_removeUser: "ledger_ok (removeUserFromAllWaitlists s u ex) = ledger_ok s"
proof -
  have "ledger_ok (update_booking s' (displaced u ex) (\<lambda>b. b\<lparr>status := CANCELED\<rparr>)) = ledger_ok s'" for s'
    by (rule ledger_ok_cancel_waitlisted) (simp add: displaced_def)
  then show ?thesis
    by (simp add: removeUserFromAllWaitlists_def Let_def ledger_ok_delete_waitlist)
qed

lemma ledger_ok_cancel_waitlisted_of: "ledger_ok (cancel_waitlisted_of s cn) = ledger_ok s"
proof -
  have "ledger_ok (update_booking s (\<lambda>b. conference_name b = cn \<and> status b = WAITLISTED)
          (\<lambda>b. b\<lparr>status := CANCELED\<rparr>)) = ledger_ok s"
    by (rule ledger_ok_cancel_waitlisted) simp
  then show ?thesis
    by (simp add: cancel_waitlisted_of_def ledger_ok_delete_waitlist)
qed

lemma ledger_ok_requeue: "requeue_expired now b s = Some s' \<Longrightarrow> ledger_ok s' = ledger_ok s"
  by (auto simp: requeue_expired_def Let_def ledger_ok_processNext ledger_ok_update_booking
        ledger_ok_waitlist_upd split: if_splits)

lemma ledger_ok_requeue_all: "requeue_all now bs s = Some s' \<Longrightarrow> ledger_ok s' = ledger_ok s"
  by (induction bs arbitrary: s) (auto simp: ledger_ok_requeue split: option.splits)

lemma ledger_ok_handleExpired:
  "ledger_ok (snd (handleExpiredWaitlistBookings rowOrder s now)) = ledger_ok s"
  by (auto simp: handleExpiredWaitlistBookings_def ledger_ok_requeue_all split: option.splits)

lemma ledger_ok_autoCancel_loop:
  "autoCancel_loop faults cs s = Some s' \<Longrightarrow> ledger_ok s' = ledger_ok s"
  by (induction cs arbitrary: s) (auto simp: ledger_ok_cancel_waitlisted_of split: if_splits)

lemma ledger_ok_autoCancel:
  "ledger_ok (snd (autoCancelForStartedConferences faults s now)) = ledger_ok s"
  by (auto simp: autoCancelForStartedConferences_def ledger_ok_autoCancel_loop split: option.splits)

lemma find_SomeD: "find P xs = Some x \<Longrightarrow> x \<in> set xs \<and> P x"
  by (induction xs) (auto split: if_splits)

lemma count_update_one:
  assumes "distinct (map booking_id bs)" and "b \<in> set bs"
  shows "int (length (filter Q (map (\<lambda>x. if booking_id x = booking_id b then f x else x) bs)))
         = int (length (filter Q bs)) + (if Q (f b) then 1 else 0) - (if Q b then 1 else 0)"
  using assms
proof (induction bs)
  case Nil
  then show ?case by simp
next
  case (Cons x xs)
  show ?case
  proof (cases "x = b")
    case True
    with Cons.prems have "booking_id b \<notin> booking_id ` set xs"
      by simp
    then have "\<forall>y\<in>set xs. booking_id y \<noteq> booking_id b"
      by (metis imageI)
    then have "map (\<lambda>x. if booking_id x = booking_id b then f x else x) xs = xs"
      by (simp add: map_idI)
    with True show ?thesis by simp
  next
    case False
    with Cons.prems have "b \<in> set xs" and "booking_id x \<noteq> booking_id b" and "distinct (map booking_id xs)"
      by auto
    with Cons.IH show ?thesis by auto
  qed
qed

lemma confirmed_count_update_one:
  assumes "booking_ids_unique s" and "b \<in> set (bookings s)"
  shows "confirmed_count (update_booking s (\<lambda>x. booking_id x = booking_id b) f) cn
         = confirmed_count s cn + (if is_confirmed_for cn (f b) then 1 else 0)
             - (if is_confirmed_for cn b then 1 else 0)"
  using count_update_one [of "bookings s" b "is_confirmed_for cn" f] assms
  by (simp add: confirmed_count_def update_booking_def booking_ids_unique_def)

lemma ledger_ok_slots:
  assumes "booking_ids_unique s1"
    and "conferences s1 = conferences s" and "ledger_invariant s"
    and "\<And>c. confirmed_count s1 c = confirmed_count s c - (if c = cn then d else 0)"
    and "update_available_slots s1 cn d = Some s2"
  shows "ledger_ok s2"
proof -
  from assms(5) have s2: "s2 = s1\<lparr>conferences :=
       map (\<lambda>c. if name c = cn then c\<lparr>available_slots := available_slots c + d\<rparr> else c)
         (conferences s1)\<rparr>"
    by (simp add: update_available_slots_def split: if_splits)
  have cnt: "confirmed_count s2 c = confirmed_count s1 c" for c
    by (simp add: s2 confirmed_count_def)
  have "booking_ids_unique s2"
    using assms(1) by (simp add: s2 booking_ids_unique_def)
  moreover have "ledger_invariant s2"
    unfolding ledger_invariant_def list_all_iff
  proof
    fix c' assume "c' \<in> set (conferences s2)"
    then obtain x where x: "x \<in> set (conferences s)"
      and c': "c' = (if name x = cn then x\<lparr>available_slots := available_slots x + d\<rparr> else x)"
      by (auto simp: s2 assms(2))
    from x assms(3) have "available_slots x = total_slots x - confirmed_count s (name x)"
      by (simp add: ledger_invariant_def list_all_iff)
    then show "available_slots c' = total_slots c' - confirmed_count s2 (name c')"
      by (simp add: c' cnt assms(4))
  qed
  ultimately show ?thesis by (simp add: ledger_ok_def)
qed

lemma insert_bookingD:
  assumes "insert_booking s b = Some s1"
  shows "s1 = s\<lparr>bookings := bookings s @ [b]\<rparr>"
    and "booking_id b \<notin> booking_id ` set (bookings s)"
  using assms by (auto simp: insert_booking_def list_ex_iff split: if_splits)

lemma ledger_ok_book_confirmed:
  assumes "ledger_ok s" and "book_confirmed s now bookingId cn uid = Some s'"
  shows "ledger_ok s'"
proof -
  let ?b = "\<lambda>k. \<lparr>booking_id = k, conference_name = cn, user_id = uid,
             status = CONFIRMED, created_at = now, confirm_by = None\<rparr>"
  from assms(2) obtain k s1 s2 where ins: "insert_booking s (?b k) = Some s1"
    and upd: "update_available_slots s1 cn (- 1) = Some s2"
    and s': "s' = removeUserFromAllWaitlists s2 uid cn"
    by (auto simp: book_confirmed_def split: option.splits)
  note s1 = insert_bookingD [OF ins]
  have "booking_ids_unique s1"
    using assms(1) s1 by (simp add: ledger_ok_def booking_ids_unique_def)
  moreover have "conferences s1 = conferences s"
    by (simp add: s1(1))
  moreover have "ledger_invariant s"
    using assms(1) by (simp add: ledger_ok_def)
  moreover have "confirmed_count s1 c = confirmed_count s c - (if c = cn then - 1 else 0)" for c
    by (simp add: s1(1) confirmed_count_def is_confirmed_for_def)
  ultimately have "ledger_ok s2"
    using upd by (rule ledger_ok_slots)
  then show ?thesis
    by (simp add: s' ledger_ok_removeUser)
qed

lemma ledger_ok_book_waitlisted:
  assumes "ledger_ok s" and "book_waitlisted s now bookingId cn uid = Some (p, s')"
  shows "ledger_ok s'"
proof -
  let ?b = "\<lambda>k. \<lparr>booking_id = k, conference_name = cn, user_id = uid,
             status = WAITLISTED, created_at = now, confirm_by = None\<rparr>"
  from assms(2) obtain k s1 ws where ins: "insert_booking s (?b k) = Some s1"
    and s': "s' = s1\<lparr>waitlist := ws\<rparr>"
    by (auto simp: book_waitlisted_def insert_waitlist_def Let_def split: option.splits if_splits)
  note s1 = insert_bookingD [OF ins]
  have "ledger_ok s1 = ledger_ok s"
    using assms(1) s1
    by (simp add: ledger_ok_def booking_ids_unique_def ledger_invariant_def
          confirmed_count_def is_confirmed_for_def)
  with assms(1) show ?thesis
    by (simp add: s' ledger_ok_waitlist_upd)
qed

lemma ledger_ok_bookConference:
  "ledger_ok s \<Longrightarrow> ledger_ok (snd (bookConference s now bookingId cn uid))"
  unfolding bookConference_def
  by (simp split: option.split bool.split prod.split)
     (blast intro: ledger_ok_book_confirmed ledger_ok_book_waitlisted)

lemma booking_with_conferenceD:
  assumes "booking_with_conference s bookingId = Some (Some (b, c))"
  shows "b \<in> set (bookings s)" and "uuid_in bookingId = Some (booking_id b)"
    and "c \<in> set (conferences s)" and "name c = conference_name b"
  using assms by (auto simp: booking_with_conference_def split: option.splits dest: find_SomeD)

lemma ledger_ok_confirm_writes:
  assumes "ledger_ok s" and "b \<in> set (bookings s)" and "status b = WAITLISTED"
    and "confirm_writes s now b = Some s'"
  shows "ledger_ok s'"
proof -
  let ?f = "\<lambda>x. x\<lparr>status := CONFIRMED, confirm_by := None\<rparr>"
  let ?s1 = "update_booking s (\<lambda>x. booking_id x = booking_id b) ?f"
  from assms(4) obtain s2 where upd: "update_available_slots ?s1 (conference_name b) (- 1) = Some s2"
    and s': "s' = processNextInWaitlist
                    (removeUserFromAllWaitlists
                       (delete_waitlist s2 (\<lambda>w. w_booking_id w = booking_id b))
                       (user_id b) (conference_name b)) now (conference_name b)"
    by (auto simp: confirm_writes_def Let_def split: option.splits)
  have u: "booking_ids_unique s" and inv: "ledger_invariant s"
    using assms(1) by (simp_all add: ledger_ok_def)
  have "map booking_id (bookings ?s1) = map booking_id (bookings s)"
    by (simp add: update_booking_def comp_def)
  then have "booking_ids_unique ?s1"
    using u by (simp add: booking_ids_unique_def)
  moreover have "conferences ?s1 = conferences s"
    by (simp add: update_booking_def)
  moreover note inv
  moreover have "confirmed_count ?s1 c
                 = confirmed_count s c - (if c = conference_name b then - 1 else 0)" for c
    using confirmed_count_update_one [OF u assms(2), of ?f c] assms(3)
    by (simp add: is_confirmed_for_def)
  ultimately have "ledger_ok s2"
    using upd by (rule ledger_ok_slots)
  then show ?thesis
    by (simp add: s' ledger_ok_processNext ledger_ok_removeUser ledger_ok_delete_waitlist)
qed

lemma ledger_ok_confirmWaitlistBooking:
  "ledger_ok s \<Longrightarrow> ledger_ok (snd (confirmWaitlistBooking s now bookingId))"
  unfolding confirmWaitlistBooking_def
  by (simp split: option.split prod.split)
     (blast dest: booking_with_conferenceD(1) intro: ledger_ok_confirm_writes)

lemma ledger_ok_cancel_writes:
  assumes "ledger_ok s" and "b \<in> set (bookings s)" and "cancel_writes visit s now b = Some s'"
  shows "ledger_ok s'"
proof -
  let ?f = "\<lambda>x. x\<lparr>status := CANCELED\<rparr>"
  let ?s1 = "update_booking s (\<lambda>x. booking_id x = booking_id b) ?f"
  have u: "booking_ids_unique s" and inv: "ledger_invariant s"
    using assms(1) by (simp_all add: ledger_ok_def)
  have ids: "map booking_id (bookings ?s1) = map booking_id (bookings s)"
    by (simp add: update_booking_def comp_def)
  then have u1: "booking_ids_unique ?s1"
    using u by (simp add: booking_ids_unique_def)
  have c1: "conferences ?s1 = conferences s"
    by (simp add: update_booking_def)
  have cnt: "confirmed_count ?s1 c
             = confirmed_count s c - (if c = conference_name b \<and> status b = CONFIRMED then 1 else 0)" for c
    using confirmed_count_update_one [OF u assms(2), of ?f c]
    by (simp add: is_confirmed_for_def)
  show ?thesis
  proof (cases "status b = CONFIRMED")
    case True
    with assms(3) obtain s2 where upd: "update_available_slots ?s1 (conference_name b) 1 = Some s2"
      and s': "s' = processNextInWaitlist s2 now (conference_name b)"
      by (auto simp: cancel_writes_def Let_def split: option.splits)
    from True cnt have "confirmed_count ?s1 c
             = confirmed_count s c - (if c = conference_name b then 1 else 0)" for c
      by simp
    with u1 c1 inv have "ledger_ok s2"
      using upd by (rule ledger_ok_slots)
    then show ?thesis
      by (simp add: s' ledger_ok_processNext)
  next
    case False
    with cnt have "confirmed_count ?s1 c = confirmed_count s c" for c
      by simp
    with c1 ids have "ledger_ok ?s1 = ledger_ok s"
      by (rule ledger_ok_cong)
    moreover from False assms(3)
    have "s' = ?s1 \<or> reorderWaitlist visit
                          (delete_waitlist ?s1 (\<lambda>w. w_booking_id w = booking_id b))
                          (conference_name b) = Some s'"
      by (auto simp: cancel_writes_def Let_def split: if_splits)
    ultimately show ?thesis
      using assms(1) by (auto simp: ledger_ok_delete_waitlist dest: ledger_ok_reorder)
  qed
qed

lemma ledger_ok_cancelBooking:
  "ledger_ok s \<Longrightarrow> ledger_ok (snd (cancelBooking visit s now bookingId))"
  unfolding cancelBooking_def
  by (simp split: option.split prod.split)
     (blast dest: booking_with_conferenceD(1) intro: ledger_ok_cancel_writes)

text \<open>
  C1. Capacity ledger invariant: in a database whose booking identifiers are unique
  (the primary key) and in which every conference has
  \<open>available_slots = total_slots - (number of its CONFIRMED bookings)\<close>, the same holds
  after any one mutating operation of the engine: \<^verbatim>\<open>bookConference\<close>,
  \<^verbatim>\<open>confirmWaitlistBooking\<close>, \<^verbatim>\<open>cancelBooking\<close>, \<^verbatim>\<open>handleExpiredWaitlistBookings\<close> and
  \<^verbatim>\<open>autoCancelForStartedConferences\<close>, with any arguments, at any time, whether the
  operation succeeds, fails or is rolled back.
\<close>

theorem ledger_invariant_engine_step:
  assumes "booking_ids_unique s" and "ledger_invariant s"
  shows "booking_ids_unique (engine_step now op s) \<and> ledger_invariant (engine_step now op s)"
proof -
  from assms have "ledger_ok s"
    by (simp add: ledger_ok_def)
  then have "ledger_ok (engine_step now op s)"
    by (cases op)
       (simp_all add: ledger_ok_bookConference ledger_ok_confirmWaitlistBooking
          ledger_ok_cancelBooking ledger_ok_handleExpired ledger_ok_autoCancel)
  then show ?thesis
    by (simp add: ledger_ok_def)
qed

theorem ledger_invariant_engine_step_witness:
  "booking_ids_unique db_full \<and> ledger_invariant db_full \<and>
   booking_ids_unique (engine_step 3 (Cancel table_order uuid1) db_full) \<and>
   ledger_invariant (engine_step 3 (Cancel table_order uuid1) db_full) \<and>
   map available_slots (conferences (engine_step 3 (Cancel table_order uuid1) db_full)) = [1, 1]"
proof -
  have u: "booking_ids_unique db_full"
    by (simp add: db_full_def booking_ids_unique_def)
  have l: "ledger_invariant db_full"
    by (simp add: db_full_def ledger_invariant_def confirmed_count_def is_confirmed_for_def)
  have "map available_slots (conferences (engine_step 3 (Cancel table_order uuid1) db_full)) = [1, 1]"
    by (simp add: db_full_def engine_defs example_uuids)
  with u l ledger_invariant_engine_step [OF u l, of 3 "Cancel table_order uuid1"] show ?thesis
    by simp
qed

section \<open>Promotion\<close>

lemma find_map_update:
  assumes "\<And>x. booking_id (f x) = booking_id x"
  shows "find (\<lambda>b. booking_id b = k') (map (\<lambda>b. if booking_id b = k then f b else b) bs)
         = (if k' = k then map_option f (find (\<lambda>b. booking_id b = k') bs)
            else find (\<lambda>b. booking_id b = k') bs)"
  by (induction bs) (auto simp: assms)

lemma booking_of_update_by_id:
  assumes "\<And>x. booking_id (f x) = booking_id x"
  shows "booking_of (update_booking s (\<lambda>b. booking_id b = k) f) k'
         = (if k' = k then map_option f (booking_of s k) else booking_of s k')"
  using find_map_update [of f k' k "bookings s"] assms
  by (simp add: booking_of_def update_booking_def)

lemma booking_of_Some_iff:
  "(\<exists>b. booking_of s k = Some b) \<longleftrightarrow> k \<in> set (map booking_id (bookings s))"
proof -
  have "(find (\<lambda>b. booking_id b = k) bs \<noteq> None) \<longleftrightarrow> k \<in> booking_id ` set bs" for bs
    by (induction bs) auto
  from this [of "bookings s"] show ?thesis
    by (simp add: booking_of_def)
qed

lemma list_ex_booking_id:
  "list_ex (\<lambda>b. booking_id b = k) bs \<longleftrightarrow> k \<in> booking_id ` set bs"
  by (induction bs) auto

lemma waitlist_headD:
  assumes "waitlist_head s cn = Some w"
  shows "w \<in> set (waitlist_of s cn)"
    and "w_booking_id w \<in> set (map booking_id (bookings s))"
    and "\<And>w'. w' \<in> set (joined_waitlist s cn) \<Longrightarrow> position w \<le> position w'"
proof -
  let ?ws = "joined_waitlist s cn"
  from assms obtain rest where srt: "sort_key position ?ws = w # rest"
    by (auto simp: waitlist_head_def split: list.splits)
  have "set (sort_key position ?ws) = set ?ws" by simp
  with srt have mem: "w \<in> set ?ws" and sub: "set ?ws = insert w (set rest)"
    by auto
  from mem show "w \<in> set (waitlist_of s cn)"
    by (simp add: joined_waitlist_def)
  from mem show "w_booking_id w \<in> set (map booking_id (bookings s))"
    by (simp add: joined_waitlist_def list_ex_booking_id)
  have "sorted (map position (sort_key position ?ws))"
    by (rule sorted_sort_key)
  with srt have "\<forall>x\<in>set rest. position w \<le> position x"
    by simp
  with sub show "\<And>w'. w' \<in> set ?ws \<Longrightarrow> position w \<le> position w'"
    by auto
qed

lemma joined_waitlist_total:
  assumes "schema_constraints s"
  shows "joined_waitlist s cn = waitlist_of s cn"
proof -
  from assms have "\<forall>w\<in>set (waitlist s). w_booking_id w \<in> booking_id ` set (bookings s)"
    by (simp add: schema_constraints_def list_all_iff)
  then have "\<forall>w\<in>set (waitlist_of s cn). list_ex (\<lambda>b. booking_id b = w_booking_id w) (bookings s)"
    by (simp add: list_ex_booking_id waitlist_of_def)
  then show ?thesis
    unfolding joined_waitlist_def by (simp only: filter_True)
qed

lemma waitlist_head_exists:
  assumes "joined_waitlist s cn \<noteq> []"
  shows "\<exists>w. waitlist_head s cn = Some w"
proof -
  have "length (sort_key position (joined_waitlist s cn)) = length (joined_waitlist s cn)"
    by simp
  with assms have "sort_key position (joined_waitlist s cn) \<noteq> []"
    by (metis length_0_conv)
  then show ?thesis
    by (auto simp: waitlist_head_def split: list.splits)
qed

lemma processNext_tables:
  "conferences (processNextInWaitlist s now cn) = conferences s"
  "waitlist (processNextInWaitlist s now cn) = waitlist s"
  "users (processNextInWaitlist s now cn) = users s"
  "map booking_id (bookings (processNextInWaitlist s now cn)) = map booking_id (bookings s)"
  "map status (bookings (processNextInWaitlist s now cn)) = map status (bookings s)"
  "map conference_name (bookings (processNextInWaitlist s now cn)) = map conference_name (bookings s)"
  "map user_id (bookings (processNextInWaitlist s now cn)) = map user_id (bookings s)"
  by (simp_all add: processNextInWaitlist_def update_booking_def comp_def split: option.split)

lemma processNext_booking_of:
  "booking_of (processNextInWaitlist s now cn) k =
     (case waitlist_head s cn of
        None \<Rightarrow> booking_of s k
      | Some w \<Rightarrow> if k = w_booking_id w
                  then map_option (\<lambda>b. b\<lparr>confirm_by := Some (now + 3600000)\<rparr>) (booking_of s k)
                  else booking_of s k)"
  by (simp add: processNextInWaitlist_def booking_of_update_by_id split: option.split)

text \<open>
  C10. Promotion overwrites the head's deadline: whenever \<^verbatim>\<open>processNextInWaitlist\<close>
  runs for a conference whose waitlist is not empty, in a database that satisfies the
  schema, it has a head row (a row of that conference with the least position), and
  the head's booking comes out with \<open>confirm_by = now + 1 hour\<close>, whatever its
  \<open>confirm_by\<close> was before: unset, passed, or an earlier deadline that is still open.
\<close>

theorem promotion_overwrites_deadline:
  assumes "schema_constraints s" and "waitlist_of s cn \<noteq> []"
  shows "case waitlist_head s cn of
           None \<Rightarrow> False
         | Some w \<Rightarrow>
             w \<in> set (waitlist_of s cn) \<and>
             (\<forall>w'\<in>set (waitlist_of s cn). position w \<le> position w') \<and>
             (case booking_of s (w_booking_id w) of
                None \<Rightarrow> False
              | Some b \<Rightarrow>
                  booking_of (processNextInWaitlist s now cn) (w_booking_id w)
                  = Some (b\<lparr>confirm_by := Some (now + 60 * 60 * 1000)\<rparr>))"
proof -
  from assms have "joined_waitlist s cn \<noteq> []"
    by (simp add: joined_waitlist_total)
  then obtain w where w: "waitlist_head s cn = Some w"
    using waitlist_head_exists by blast
  note h = waitlist_headD [OF w]
  from h(2) obtain b where b: "booking_of s (w_booking_id w) = Some b"
    using booking_of_Some_iff by blast
  from h(3) assms(1) have "\<forall>w'\<in>set (waitlist_of s cn). position w \<le> position w'"
    by (simp add: joined_waitlist_total)
  with w h(1) b show ?thesis
    by (simp add: processNext_booking_of)
qed

theorem promotion_overwrites_deadline_witness:
  "schema_constraints db_promoted \<and> waitlist_of db_promoted ''K'' \<noteq> [] \<and>
   confirm_by_of db_promoted uuid2 = Some (Some 3600003) \<and> (10::int) < 3600003 \<and>
   confirm_by_of (processNextInWaitlist db_promoted 10 ''K'') uuid2 = Some (Some 3600010)"
proof -
  have c: "schema_constraints db_promoted"
    by (rule examples_satisfy_schema)
  have n: "waitlist_of db_promoted ''K'' \<noteq> []"
    by (simp add: db_promoted_def waitlist_of_def)
  have h: "waitlist_head db_promoted ''K'' = Some \<lparr>w_conference_name = ''K'', w_booking_id = uuid2, position = 1, w_created_at = 2\<rparr>"
    by (simp add: db_promoted_def waitlist_head_def joined_waitlist_def waitlist_of_def)
  have b: "booking_of db_promoted uuid2 = Some \<lparr>booking_id = uuid2, conference_name = ''K'', user_id = ''b'',
          status = WAITLISTED, created_at = 2, confirm_by = Some 3600003\<rparr>"
    by (simp add: db_promoted_def booking_of_def)
  from promotion_overwrites_deadline [OF c n, of 10] c n show ?thesis
    by (simp add: h b confirm_by_of_def)
qed

section \<open>The start sweep is one transaction\<close>

lemma swept_empty: "swept s {} = s"
  by (simp add: swept_def)

lemma swept_cancel_waitlisted_of:
  "swept (cancel_waitlisted_of s cn) started = swept s (insert cn started)"
proof -
  have "map (\<lambda>b. if conference_name b \<in> started \<and> status b = WAITLISTED
                  then b\<lparr>status := CANCELED\<rparr> else b)
          (map (\<lambda>b. if conference_name b = cn \<and> status b = WAITLISTED
                     then b\<lparr>status := CANCELED\<rparr> else b) bs)
        = map (\<lambda>b. if conference_name b \<in> insert cn started \<and> status b = WAITLISTED
                    then b\<lparr>status := CANCELED\<rparr> else b) bs" for bs
    by (induction bs) auto
  moreover have "filter (\<lambda>w. w_conference_name w \<notin> started)
                   (filter (\<lambda>w. \<not> w_conference_name w = cn) ws)
                 = filter (\<lambda>w. w_conference_name w \<notin> insert cn started) ws" for ws
    by (induction ws) auto
  ultimately show ?thesis
    by (simp add: swept_def cancel_waitlisted_of_def update_booking_def delete_waitlist_def)
qed

lemma autoCancel_loop_eq:
  "autoCancel_loop faults cs s =
     (if list_ex (\<lambda>c. faults (name c)) cs then None
      else Some (swept s (set (map name cs))))"
proof (induction cs arbitrary: s)
  case Nil
  show ?case by (simp add: swept_empty)
next
  case (Cons c cs)
  show ?case
    by (simp add: Cons.IH swept_cancel_waitlisted_of)
qed

text \<open>
  As stated, claim C9 asks that a failure while one started conference is processed
  leave the others processed. It does not: at time 50000000 both \<open>K\<close> and \<open>L\<close> of
  \<open>db_full\<close> have started; without a failure the sweep cancels the waitlisted booking
  \<open>uuid2\<close> of \<open>K\<close>; with a failure at \<open>L\<close>, processed after \<open>K\<close>, the sweep throws and
  the database is the one before the sweep, booking \<open>uuid2\<close> still WAITLISTED.
\<close>

theorem autoCancel_isolation_counterexample:
  "map name (getStartedConferences db_full 50000000) = [''K'', ''L''] \<and>
   status_of db_full uuid2 = Some WAITLISTED \<and>
   status_of (snd (autoCancelForStartedConferences (\<lambda>cn. False) db_full 50000000)) uuid2
     = Some CANCELED \<and>
   autoCancelForStartedConferences (\<lambda>cn. cn = ''L'') db_full 50000000 = (Thrown, db_full)"
  by (simp add: db_full_def engine_defs status_of_def booking_of_def)

text \<open>
  C9, amended. \<^verbatim>\<open>autoCancelForStartedConferences\<close> is a single transaction over all
  started conferences: if a statement fails for any of them, the error is rethrown and
  the whole pass is rolled back, the database being the one before the sweep; if none
  fails, the pass commits with the WAITLISTED bookings of every started conference
  CANCELED and their waitlist rows deleted.
\<close>

theorem autoCancel_single_transaction:
  "autoCancelForStartedConferences faults s now =
     (if list_ex (\<lambda>c. faults (name c)) (getStartedConferences s now)
      then (Thrown, s)
      else (Committed, swept s (set (map name (getStartedConferences s now)))))"
  by (simp add: autoCancelForStartedConferences_def autoCancel_loop_eq)

theorem autoCancel_single_transaction_witness:
  "autoCancelForStartedConferences (\<lambda>cn. cn = ''L'') db_full 50000000 = (Thrown, db_full) \<and>
   fst (autoCancelForStartedConferences (\<lambda>cn. False) db_full 50000000) = Committed \<and>
   status_of (snd (autoCancelForStartedConferences (\<lambda>cn. False) db_full 50000000)) uuid2
     = Some CANCELED \<and>
   status_of (snd (autoCancelForStartedConferences (\<lambda>cn. False) db_full 50000000)) uuid1
     = Some CONFIRMED \<and>
   waitlist (snd (autoCancelForStartedConferences (\<lambda>cn. False) db_full 50000000)) = []"
proof -
  have started: "getStartedConferences db_full 50000000 = conferences db_full"
    by (simp add: db_full_def getStartedConferences_def)
  show ?thesis
    using autoCancel_single_transaction [of "\<lambda>cn. cn = ''L''" db_full 50000000]
      autoCancel_single_transaction [of "\<lambda>cn. False" db_full 50000000]
    by (simp add: started) (simp add: db_full_def swept_def status_of_def booking_of_def)
qed

section \<open>Waitlist positions after displacement, confirmation and expiry\<close>

text \<open>
  C2. Dense-position invariant: for every conference, after every mutating operation
  of the engine, the waitlist positions should be exactly \<open>1, \<dots>, N\<close>, with \<open>N\<close> the
  number of WAITLISTED bookings of the conference. The engine does not keep it: only
  \<^verbatim>\<open>cancelBooking\<close> calls \<^verbatim>\<open>reorderWaitlist\<close> after it deletes a row. Evaluated on
  databases that satisfy the invariant:
  \<^item> displacement: \<open>b\<close> and \<open>c\<close> wait for \<open>L\<close> at positions 1 and 2; \<open>b\<close> books the free
    seat of \<open>K\<close>, \<^verbatim>\<open>removeUserFromAllWaitlists\<close> deletes the row of \<open>b\<close>, and \<open>c\<close> is left
    alone in the waitlist of \<open>L\<close> at position 2;
  \<^item> expiry: \<open>b\<close> alone waits for \<open>K\<close> at position 1 with a passed deadline;
    \<^verbatim>\<open>handleExpiredWaitlistBookings\<close> moves it to \<^verbatim>\<open>MAX(position) + 1\<close>, position 2
    (one booking has expired: the order of the \<^verbatim>\<open>SELECT\<close> plays no part);
  \<^item> confirmation: \<open>b\<close> and \<open>c\<close> wait for \<open>K\<close> at positions 1 and 2; \<open>b\<close> confirms,
    its row is deleted, and \<open>c\<close> is left alone at position 2.
\<close>

theorem waitlist_invariant_broken:
  "waitlist_invariant db_displace ''K'' \<and> waitlist_invariant db_displace ''L'' \<and>
   fst (bookConference db_displace 4 uuid4 ''K'' ''b'') = Success uuid4 CONFIRMED None \<and>
   map position (waitlist_of (engine_step 4 (Book uuid4 ''K'' ''b'') db_displace) ''L'') = [2] \<and>
   waitlisted_count (engine_step 4 (Book uuid4 ''K'' ''b'') db_displace) ''L'' = 1 \<and>
   \<not> waitlist_invariant (engine_step 4 (Book uuid4 ''K'' ''b'') db_displace) ''L'' \<and>
   waitlist_invariant db_promoted ''K'' \<and>
   map position
     (waitlist_of (engine_step 3600005 (HandleExpired table_order) db_promoted) ''K'') = [2] \<and>
   waitlisted_count (engine_step 3600005 (HandleExpired table_order) db_promoted) ''K'' = 1 \<and>
   \<not> waitlist_invariant (engine_step 3600005 (HandleExpired table_order) db_promoted) ''K'' \<and>
   waitlist_invariant db_queue ''K'' \<and>
   fst (confirmWaitlistBooking db_queue 5 uuid2) = Success uuid2 CONFIRMED None \<and>
   map position (waitlist_of (engine_step 5 (Confirm uuid2) db_queue) ''K'') = [2] \<and>
   waitlisted_count (engine_step 5 (Confirm uuid2) db_queue) ''K'' = 1 \<and>
   \<not> waitlist_invariant (engine_step 5 (Confirm uuid2) db_queue) ''K''"
  by (simp add: db_displace_def db_promoted_def db_queue_def engine_defs example_uuids
        waitlist_invariant_def waitlisted_count_def upto.simps)

text \<open>
  C3. Expiry requeue of a sole waitlist entry: the only WAITLISTED entry of a
  conference, its deadline passed, should be left at position 1 by
  \<^verbatim>\<open>handleExpiredWaitlistBookings\<close>, its deadline cleared and set afresh. In
  \<open>db_promoted\<close> booking \<open>uuid2\<close> is the only row of the waitlist of \<open>K\<close>, at
  position 1, WAITLISTED, with the deadline 3600003, and the only expired booking,
  so that the order of the \<^verbatim>\<open>SELECT\<close> plays no part. The sweep at time 3600005
  commits; it clears the deadline and promotes the booking again, to the
  deadline 7200005, as the claim says; but the row is moved to \<^verbatim>\<open>MAX(position) + 1\<close>
  with its own position counted, so it is at position 2, not 1, and a second sweep
  after the new deadline puts it at position 3: the sweep is not idempotent on the
  position.
\<close>

theorem expiry_moves_sole_entry_to_position_2:
  "waitlist_of db_promoted ''K'' =
     [\<lparr>w_conference_name = ''K'', w_booking_id = uuid2, position = 1, w_created_at = 2\<rparr>] \<and>
   status_of db_promoted uuid2 = Some WAITLISTED \<and>
   confirm_by_of db_promoted uuid2 = Some (Some 3600003) \<and>
   fst (handleExpiredWaitlistBookings table_order db_promoted 3600005) = Committed \<and>
   waitlist_of (snd (handleExpiredWaitlistBookings table_order db_promoted 3600005)) ''K'' =
     [\<lparr>w_conference_name = ''K'', w_booking_id = uuid2, position = 2, w_created_at = 2\<rparr>] \<and>
   status_of (snd (handleExpiredWaitlistBookings table_order db_promoted 3600005)) uuid2
     = Some WAITLISTED \<and>
   confirm_by_of (snd (handleExpiredWaitlistBookings table_order db_promoted 3600005)) uuid2
     = Some (Some 7200005) \<and>
   map position
     (waitlist_of
        (snd (handleExpiredWaitlistBookings table_order
                (snd (handleExpiredWaitlistBookings table_order db_promoted 3600005)) 7200006))
        ''K'') = [3]"
  by (simp add: db_promoted_def engine_defs status_of_def confirm_by_of_def booking_of_def)

section \<open>Reading rows in a database that satisfies the schema\<close>

lemma schema_constraintsD:
  assumes "schema_constraints s"
  shows "distinct (map name (conferences s))"
    and "\<And>c. c \<in> set (conferences s) \<Longrightarrow> conference_checks c"
    and "distinct (map booking_id (bookings s))"
    and "distinct (map (\<lambda>b. (conference_name b, user_id b)) (bookings s))"
    and "\<And>b. b \<in> set (bookings s) \<Longrightarrow> conference_name b \<in> name ` set (conferences s)"
    and "distinct (map (\<lambda>w. (w_conference_name w, w_booking_id w)) (waitlist s))"
    and "\<And>w. w \<in> set (waitlist s) \<Longrightarrow> w_booking_id w \<in> booking_id ` set (bookings s)"
    and "\<And>b. b \<in> set (bookings s) \<Longrightarrow> uuid_in (booking_id b) = Some (booking_id b)"
  using assms by (simp_all add: schema_constraints_def list_all_iff)

lemma find_unique:
  assumes "distinct (map f xs)" and "x \<in> set xs"
  shows "find (\<lambda>y. f y = f x) xs = Some x"
  using assms
proof (induction xs)
  case Nil
  then show ?case by simp
next
  case (Cons y ys)
  show ?case
  proof (cases "y = x")
    case True
    then show ?thesis by simp
  next
    case False
    with Cons.prems have "x \<in> set ys" by simp
    then have "f x \<in> f ` set ys" by (rule imageI)
    with Cons.prems have "f y \<noteq> f x" by auto
    with Cons \<open>x \<in> set ys\<close> show ?thesis by simp
  qed
qed

lemma find_None_image: "find (\<lambda>y. f y = k) xs = None \<longleftrightarrow> k \<notin> f ` set xs"
  by (induction xs) auto

lemma booking_of_SomeD:
  "booking_of s k = Some b \<Longrightarrow> b \<in> set (bookings s) \<and> booking_id b = k"
  by (auto simp: booking_of_def dest: find_SomeD)

lemma booking_of_member:
  assumes "distinct (map booking_id (bookings s))" and "b \<in> set (bookings s)"
  shows "booking_of s (booking_id b) = Some b"
  using find_unique [OF assms] by (simp add: booking_of_def)

lemma getConferenceByName_SomeD:
  "getConferenceByName s cn = Some c \<Longrightarrow> c \<in> set (conferences s) \<and> name c = cn"
  by (auto simp: getConferenceByName_def dest: find_SomeD)

lemma conference_of_booking:
  assumes "schema_constraints s" and "booking_of s k = Some b"
  shows "\<exists>c. getConferenceByName s (conference_name b) = Some c"
proof -
  from assms(2) have "b \<in> set (bookings s)"
    by (simp add: booking_of_SomeD)
  with assms(1) have "conference_name b \<in> name ` set (conferences s)"
    by (rule schema_constraintsD(5))
  then have "find (\<lambda>c. name c = conference_name b) (conferences s) \<noteq> None"
    by (simp add: find_None_image)
  then show ?thesis
    by (auto simp: getConferenceByName_def)
qed

lemma booking_with_conference_eq:
  "booking_with_conference s bookingId =
     (case uuid_in bookingId of
        None \<Rightarrow> None
      | Some k \<Rightarrow>
          Some (case booking_of s k of
                  None \<Rightarrow> None
                | Some b \<Rightarrow> map_option (Pair b) (getConferenceByName s (conference_name b))))"
  by (simp add: booking_with_conference_def booking_of_def getConferenceByName_def
        split: option.split)

lemma stored_uuid:
  assumes "schema_constraints s" and "booking_of s k = Some b"
  shows "uuid_in k = Some k"
  using schema_constraintsD(8) [OF assms(1), of b] booking_of_SomeD [OF assms(2)] by simp

lemma update_available_slots_Some:
  assumes "distinct (map name (conferences s))" and "c \<in> set (conferences s)"
    and "0 \<le> available_slots c + d" and "available_slots c + d \<le> total_slots c"
  shows "update_available_slots s (name c) d =
           Some (s\<lparr>conferences :=
                     map (\<lambda>x. if name x = name c
                               then x\<lparr>available_slots := available_slots x + d\<rparr> else x)
                       (conferences s)\<rparr>)"
proof -
  have "x = c" if "x \<in> set (conferences s)" and "name x = name c" for x
  proof -
    from assms(1) have "inj_on name (set (conferences s))"
      by (simp add: distinct_map)
    with that assms(2) show ?thesis
      by (auto dest: inj_onD)
  qed
  with assms(3,4) have "list_all (\<lambda>x. name x = name c \<longrightarrow>
                       0 \<le> available_slots x + d \<and> available_slots x + d \<le> total_slots x)
           (conferences s)"
    by (auto simp: list_all_iff)
  then show ?thesis
    by (simp add: update_available_slots_def)
qed

lemma booking_of_update_booking:
  assumes "\<And>x. booking_id (f x) = booking_id x"
  shows "booking_of (update_booking s P f) k
         = map_option (\<lambda>b. if P b then f b else b) (booking_of s k)"
proof -
  have "find (\<lambda>b. booking_id b = k) (map (\<lambda>b. if P b then f b else b) bs)
        = map_option (\<lambda>b. if P b then f b else b) (find (\<lambda>b. booking_id b = k) bs)" for bs
    by (induction bs) (auto simp: assms)
  then show ?thesis
    by (simp add: booking_of_def update_booking_def)
qed

section \<open>Booking when no seat is left\<close>

lemma sql_max_Max: "sql_max xs = (if xs = [] then None else Some (Max (set xs)))"
proof (induction xs)
  case Nil
  show ?case by simp
next
  case (Cons x xs)
  then show ?case by (cases "xs = []") (simp_all add: max_def)
qed

lemma max_position_dense:
  assumes "dense_positions s cn"
  shows "max_position s cn = int (length (waitlist_of s cn))"
proof (cases "waitlist_of s cn = []")
  case True
  then show ?thesis by (simp add: max_position_def)
next
  case False
  let ?ps = "map position (waitlist_of s cn)"
  let ?n = "int (length (waitlist_of s cn))"
  have "set ?ps = set (sort ?ps)" by simp
  also have "\<dots> = {1..?n}"
    using assms by (simp add: dense_positions_def)
  finally have "Max (set ?ps) = Max {1..?n}" by simp
  moreover from False have "1 \<le> ?n" by (cases "waitlist_of s cn") simp_all
  then have "Max {1..?n} = ?n"
    by (intro Max_eqI) auto
  ultimately have "Max (set ?ps) = ?n" by simp
  with False show ?thesis
    by (simp add: max_position_def sql_max_Max)
qed

lemma list_ex_booking_key:
  "list_ex (\<lambda>x. conference_name x = cn \<and> user_id x = uid) bs
   \<longleftrightarrow> (cn, uid) \<in> set (map (\<lambda>b. (conference_name b, user_id b)) bs)"
  by (induction bs) auto

lemma list_ex_booking_id_set:
  "list_ex (\<lambda>b. booking_id b = k) bs \<longleftrightarrow> k \<in> set (map booking_id bs)"
  by (induction bs) auto

lemma position_le_max:
  assumes "w \<in> set (waitlist_of s cn)"
  shows "position w \<le> max_position s cn"
proof -
  from assms have ne: "waitlist_of s cn \<noteq> []"
    by auto
  from assms have "position w \<in> set (map position (waitlist_of s cn))"
    by simp
  then have "position w \<le> Max (set (map position (waitlist_of s cn)))"
    by (intro Max_ge) simp_all
  with ne show ?thesis
    by (simp add: max_position_def sql_max_Max)
qed

text \<open>
  As stated, claim C4 promises a WAITLISTED success at position (waitlist size + 1)
  whenever the five checks pass and no seat is left. In \<open>db_requeued\<close> conference
  \<open>K\<close> has no seat left and one waitlist row, at position 2. For user \<open>d\<close> the checks
  pass and the booking is waitlisted at \<^verbatim>\<open>MAX(position) + 1 = 3\<close>, while the waitlist
  size plus one is 2. For user \<open>a\<close>, whose earlier booking of \<open>K\<close> is CANCELED, the
  checks pass as well (\<^verbatim>\<open>hasExistingBooking\<close> skips CANCELED rows), but the insert
  violates \<^verbatim>\<open>UNIQUE(conference_name, user_id)\<close>: the result is the caught error and
  the database is unchanged. In \<open>db_last_position\<close>, which the schema admits, the one
  waitlist row of \<open>K\<close> is at position 2147483647; for user \<open>c\<close> the checks pass, but
  \<^verbatim>\<open>MAX(position) + 1\<close> is out of the range of \<^verbatim>\<open>INTEGER\<close>: the result is the caught
  error and the database is unchanged.
\<close>

theorem book_at_zero_capacity_counterexample:
  "schema_constraints db_requeued \<and> schema_constraints db_last_position \<and>
   map available_slots (filter (\<lambda>c. name c = ''K'') (conferences db_requeued)) = [0] \<and>
   hasConferenceStarted db_requeued ''K'' 3600006 = Some False \<and>
   getUserById db_requeued ''d'' = Some ''d'' \<and>
   \<not> hasExistingBooking db_requeued ''d'' ''K'' \<and>
   \<not> hasConflictingBooking db_requeued ''d'' 10000000 20000000 \<and>
   int (length (waitlist_of db_requeued ''K'')) + 1 = 2 \<and>
   fst (bookConference db_requeued 3600006 uuid4 ''K'' ''d'') = Success uuid4 WAITLISTED (Some 3) \<and>
   getUserById db_requeued ''a'' = Some ''a'' \<and>
   \<not> hasExistingBooking db_requeued ''a'' ''K'' \<and>
   \<not> hasConflictingBooking db_requeued ''a'' 10000000 20000000 \<and>
   bookConference db_requeued 3600006 uuid4 ''K'' ''a''
     = (Failure ''Failed to book conference'', db_requeued) \<and>
   map available_slots (filter (\<lambda>c. name c = ''K'') (conferences db_last_position)) = [0] \<and>
   hasConferenceStarted db_last_position ''K'' 3 = Some False \<and>
   getUserById db_last_position ''c'' = Some ''c'' \<and>
   \<not> hasExistingBooking db_last_position ''c'' ''K'' \<and>
   \<not> hasConflictingBooking db_last_position ''c'' 10000000 20000000 \<and>
   map position (waitlist_of db_last_position ''K'') = [2147483647] \<and>
   bookConference db_last_position 3 uuid3 ''K'' ''c''
     = (Failure ''Failed to book conference'', db_last_position)"
  by (simp add: examples_satisfy_schema)
     (simp add: db_requeued_def db_last_position_def engine_defs example_uuids)

text \<open>
  C4, amended. For every call of \<^verbatim>\<open>bookConference\<close>, on a database that satisfies
  the schema, in which the conference exists and has not started, the user exists, has no active booking of the conference and
  no time conflict, the conference has no seat left, the drawn identifier is a UUID
  that no booking has, the bookings table has no earlier row of this user for this
  conference, and the greatest position of the conference's waitlist is less than
  2147483647: the result is a success with status WAITLISTED, never CONFIRMED, at the
  reported position \<^verbatim>\<open>MAX(position) + 1\<close> of the conference's waitlist (1 if it is
  empty); the new booking and its waitlist row are appended and nothing else changes,
  \<open>available_slots\<close> included. When the positions of the conference are dense, the
  reported position is the waitlist size plus 1.
\<close>

theorem book_at_zero_capacity:
  assumes "schema_constraints s"
    and "getConferenceByName s cn = Some c" and "now < start_time c"
    and "getUserById s uid = Some u"
    and "\<not> hasExistingBooking s uid cn"
    and "\<not> hasConflictingBooking s uid (start_time c) (end_time c)"
    and "available_slots c \<le> 0"
    and "uuid_in bookingId = Some k"
    and "k \<notin> set (map booking_id (bookings s))"
    and "(cn, uid) \<notin> set (map (\<lambda>b. (conference_name b, user_id b)) (bookings s))"
    and "max_position s cn < int4_max"
  shows "bookConference s now bookingId cn uid =
           (Success bookingId WAITLISTED (Some (max_position s cn + 1)),
            s\<lparr>bookings := bookings s @
                  [\<lparr>booking_id = k, conference_name = cn, user_id = uid,
                    status = WAITLISTED, created_at = now, confirm_by = None\<rparr>],
              waitlist := waitlist s @
                  [\<lparr>w_conference_name = cn, w_booking_id = k,
                    position = max_position s cn + 1, w_created_at = now\<rparr>]\<rparr>) \<and>
         (dense_positions s cn \<longrightarrow>
            max_position s cn + 1 = int (length (waitlist_of s cn)) + 1)"
proof -
  from assms(2,3) have started: "hasConferenceStarted s cn now = Some False"
    by (simp add: getConferenceByName_def hasConferenceStarted_def)
  let ?b = "\<lparr>booking_id = k, conference_name = cn, user_id = uid,
             status = WAITLISTED, created_at = now, confirm_by = None\<rparr>"
  let ?w = "\<lparr>w_conference_name = cn, w_booking_id = k,
             position = max_position s cn + 1, w_created_at = now\<rparr>"
  from assms(9,10) have ins: "insert_booking s ?b = Some (s\<lparr>bookings := bookings s @ [?b]\<rparr>)"
    by (simp add: insert_booking_def list_ex_booking_key list_ex_booking_id_set)
  have mp: "max_position (s\<lparr>bookings := bookings s @ [?b]\<rparr>) cn = max_position s cn"
    by (simp add: max_position_def waitlist_of_def)
  have "\<not> (w_conference_name x = cn \<and>
             (w_booking_id x = k \<or> position x = max_position s cn + 1))"
    if x: "x \<in> set (waitlist s)" for x
  proof
    assume a: "w_conference_name x = cn \<and>
               (w_booking_id x = k \<or> position x = max_position s cn + 1)"
    with x have "x \<in> set (waitlist_of s cn)"
      by (simp add: waitlist_of_def)
    then have "position x \<le> max_position s cn"
      by (rule position_le_max)
    moreover from schema_constraintsD(7) [OF assms(1) x] assms(9) have "w_booking_id x \<noteq> k"
      by auto
    ultimately show False
      using a by simp
  qed
  then have "\<not> list_ex (\<lambda>x. w_conference_name x = cn \<and>
                  (w_booking_id x = k \<or> position x = max_position s cn + 1)) (waitlist s)"
    by (simp add: list_ex_iff)
  then have insw: "insert_waitlist (s\<lparr>bookings := bookings s @ [?b]\<rparr>) ?w =
          Some (s\<lparr>bookings := bookings s @ [?b], waitlist := waitlist s @ [?w]\<rparr>)"
    by (simp add: insert_waitlist_def)
  from assms(11) have "\<not> max_position s cn + 1 > int4_max"
    by simp
  then have "book_waitlisted s now bookingId cn uid =
          Some (max_position s cn + 1,
                s\<lparr>bookings := bookings s @ [?b], waitlist := waitlist s @ [?w]\<rparr>)"
    by (simp add: book_waitlisted_def assms(8) ins mp insw Let_def)
  with assms(2,4,5,6,7) started show ?thesis
    by (simp add: bookConference_def max_position_dense)
qed

theorem book_at_zero_capacity_witness:
  "schema_constraints db_full \<and> dense_positions db_full ''K'' \<and>
   fst (bookConference db_full 3 uuid3 ''K'' ''c'') = Success uuid3 WAITLISTED (Some 2) \<and>
   conferences (snd (bookConference db_full 3 uuid3 ''K'' ''c'')) = conferences db_full \<and>
   map position (waitlist_of (snd (bookConference db_full 3 uuid3 ''K'' ''c'')) ''K'') = [1, 2]"
proof -
  let ?c = "\<lparr>name = ''K'', start_time = 10000000, end_time = 20000000,
             total_slots = 1, available_slots = 0\<rparr>"
  have 1: "getConferenceByName db_full ''K'' = Some ?c"
    by (simp add: db_full_def getConferenceByName_def)
  have 2: "(3::int) < start_time ?c" by simp
  have 3: "getUserById db_full ''c'' = Some ''c''"
    by (simp add: db_full_def getUserById_def)
  have 4: "\<not> hasExistingBooking db_full ''c'' ''K''"
    by (simp add: db_full_def hasExistingBooking_def)
  have 5: "\<not> hasConflictingBooking db_full ''c'' (start_time ?c) (end_time ?c)"
    by (simp add: db_full_def hasConflictingBooking_def)
  have 6: "available_slots ?c \<le> 0" by simp
  have 7: "uuid_in uuid3 = Some uuid3"
    by (rule example_uuids)
  have 8: "uuid3 \<notin> set (map booking_id (bookings db_full))"
    by (simp add: db_full_def)
  have 9: "(''K'', ''c'') \<notin> set (map (\<lambda>b. (conference_name b, user_id b)) (bookings db_full))"
    by (simp add: db_full_def)
  have m: "max_position db_full ''K'' = 1"
    by (simp add: db_full_def max_position_def waitlist_of_def)
  have 10: "max_position db_full ''K'' < int4_max"
    by (simp add: m int4_max_def)
  have d: "dense_positions db_full ''K''"
    by (simp add: db_full_def dense_positions_def waitlist_of_def upto.simps)
  from book_at_zero_capacity [OF examples_satisfy_schema(2) 1 2 3 4 5 6 7 8 9 10] d
  show ?thesis
    by (simp add: m examples_satisfy_schema) (simp add: db_full_def waitlist_of_def)
qed

section \<open>Confirmation of a waitlisted booking\<close>

lemma removeUser_tables:
  "conferences (removeUserFromAllWaitlists t u cn) = conferences t"
  "users (removeUserFromAllWaitlists t u cn) = users t"
  "bookings (removeUserFromAllWaitlists t u cn) =
     map (\<lambda>b. if displaced u cn b then b\<lparr>status := CANCELED\<rparr> else b) (bookings t)"
  "waitlist (removeUserFromAllWaitlists t u cn) =
     filter (\<lambda>w. \<not> list_ex (\<lambda>b. booking_id b = w_booking_id w \<and> displaced u cn b) (bookings t))
       (waitlist t)"
  by (simp_all add: removeUserFromAllWaitlists_def Let_def update_booking_def delete_waitlist_def)

lemma removeUser_held_elsewhere:
  assumes "\<And>x. x \<in> set (bookings t) \<Longrightarrow> user_id x = u \<Longrightarrow> status x = WAITLISTED
             \<Longrightarrow> conference_name x \<noteq> cn"
  shows "bookings (removeUserFromAllWaitlists t u cn) =
           map (\<lambda>b. if held_elsewhere u cn b then b\<lparr>status := CANCELED\<rparr> else b) (bookings t)"
    and "waitlist (removeUserFromAllWaitlists t u cn) =
           filter (\<lambda>w. \<not> list_ex (\<lambda>b. booking_id b = w_booking_id w \<and> held_elsewhere u cn b)
                          (bookings t))
             (waitlist t)"
proof -
  have eq: "displaced u cn x = held_elsewhere u cn x" if "x \<in> set (bookings t)" for x
    using assms [OF that] by (auto simp: displaced_def held_elsewhere_def)
  show "bookings (removeUserFromAllWaitlists t u cn) =
           map (\<lambda>b. if held_elsewhere u cn b then b\<lparr>status := CANCELED\<rparr> else b) (bookings t)"
    by (simp add: removeUser_tables eq cong: map_cong)
  have "list_ex (\<lambda>b. booking_id b = k \<and> displaced u cn b) (bookings t)
        = list_ex (\<lambda>b. booking_id b = k \<and> held_elsewhere u cn b) (bookings t)" for k
    unfolding list_ex_iff using eq by blast
  then show "waitlist (removeUserFromAllWaitlists t u cn) =
           filter (\<lambda>w. \<not> list_ex (\<lambda>b. booking_id b = w_booking_id w \<and> held_elsewhere u cn b)
                          (bookings t))
             (waitlist t)"
    by (simp add: removeUser_tables)
qed

lemma same_key_same_booking:
  assumes "schema_constraints s" and "x \<in> set (bookings s)" and "b \<in> set (bookings s)"
  shows "booking_id x = booking_id b \<Longrightarrow> x = b"
    and "conference_name x = conference_name b \<Longrightarrow> user_id x = user_id b \<Longrightarrow> x = b"
proof -
  from assms(1) have "inj_on booking_id (set (bookings s))"
    and "inj_on (\<lambda>b. (conference_name b, user_id b)) (set (bookings s))"
    by (simp_all add: schema_constraints_def distinct_map)
  with assms(2,3) show "booking_id x = booking_id b \<Longrightarrow> x = b"
    and "conference_name x = conference_name b \<Longrightarrow> user_id x = user_id b \<Longrightarrow> x = b"
    by (auto dest: inj_onD)
qed

lemma confirm_success:
  assumes sc: "schema_constraints s" and ui: "uuid_in bookingId = Some k"
    and bo: "booking_of s k = Some b"
    and gc: "getConferenceByName s (conference_name b) = Some c"
    and st: "status b = WAITLISTED" and nst: "now < start_time c"
    and dl: "\<not> (case confirm_by b of None \<Rightarrow> False | Some deadline \<Rightarrow> now > deadline)"
    and av: "0 < available_slots c"
  shows "\<exists>t. confirmWaitlistBooking s now bookingId =
               (Success bookingId CONFIRMED None,
                processNextInWaitlist t now (conference_name b)) \<and>
             conferences t =
               map (\<lambda>x. if name x = conference_name b
                         then x\<lparr>available_slots := available_slots x - 1\<rparr> else x)
                 (conferences s) \<and>
             users t = users s \<and>
             bookings t =
               map (\<lambda>x. if held_elsewhere (user_id b) (conference_name b) x
                         then x\<lparr>status := CANCELED\<rparr> else x)
                 (map (\<lambda>x. if booking_id x = k
                            then x\<lparr>status := CONFIRMED, confirm_by := None\<rparr> else x)
                    (bookings s)) \<and>
             waitlist t =
               filter (\<lambda>w. \<not> list_ex (\<lambda>x. booking_id x = w_booking_id w \<and>
                                    held_elsewhere (user_id b) (conference_name b) x)
                              (bookings s))
                 (filter (\<lambda>w. w_booking_id w \<noteq> k) (waitlist s))"
proof -
  let ?u = "user_id b" and ?cn = "conference_name b"
  let ?upd = "\<lambda>x. if booking_id x = k then x\<lparr>status := CONFIRMED, confirm_by := None\<rparr> else x"
  from bo have bmem: "b \<in> set (bookings s)" and bid: "booking_id b = k"
    by (simp_all add: booking_of_SomeD)
  from gc have cmem: "c \<in> set (conferences s)" and cname: "name c = ?cn"
    by (simp_all add: getConferenceByName_SomeD)
  let ?s1 = "update_booking s (\<lambda>x. booking_id x = booking_id b)
               (\<lambda>x. x\<lparr>status := CONFIRMED, confirm_by := None\<rparr>)"
  let ?s2 = "?s1\<lparr>conferences :=
                 map (\<lambda>x. if name x = name c
                           then x\<lparr>available_slots := available_slots x + (- 1)\<rparr> else x)
                   (conferences ?s1)\<rparr>"
  let ?s3 = "delete_waitlist ?s2 (\<lambda>w. w_booking_id w = booking_id b)"
  let ?t = "removeUserFromAllWaitlists ?s3 ?u ?cn"
  have b1: "bookings ?s3 = map ?upd (bookings s)"
    by (simp add: update_booking_def delete_waitlist_def bid)
  from sc cmem have "conference_checks c"
    by (rule schema_constraintsD(2))
  with av have "0 \<le> available_slots c + (- 1)" and "available_slots c + (- 1) \<le> total_slots c"
    by (simp_all add: conference_checks_def)
  moreover from sc have "distinct (map name (conferences ?s1))"
    by (simp add: update_booking_def schema_constraintsD(1))
  moreover from cmem have "c \<in> set (conferences ?s1)"
    by (simp add: update_booking_def)
  ultimately have "update_available_slots ?s1 (name c) (- 1) = Some ?s2"
    by (intro update_available_slots_Some)
  then have cw: "confirm_writes s now b = Some (processNextInWaitlist ?t now ?cn)"
    by (simp add: confirm_writes_def Let_def cname)
  from ui bo gc have "booking_with_conference s bookingId = Some (Some (b, c))"
    by (simp add: booking_with_conference_eq)
  with st nst dl av cw have res: "confirmWaitlistBooking s now bookingId =
               (Success bookingId CONFIRMED None, processNextInWaitlist ?t now ?cn)"
    by (simp add: confirmWaitlistBooking_def)
  have none_here: "conference_name x' \<noteq> ?cn"
    if "x' \<in> set (bookings ?s3)" and "user_id x' = ?u" and "status x' = WAITLISTED" for x'
  proof -
    from that(1) obtain x where x: "x \<in> set (bookings s)" and x': "x' = ?upd x"
      by (auto simp: b1)
    from that(3) x' have ne: "booking_id x \<noteq> k" and xx: "x' = x"
      by (auto split: if_splits)
    show ?thesis
    proof
      assume "conference_name x' = ?cn"
      with that(2) xx have "x = b"
        using same_key_same_booking(2) [OF sc x bmem] by simp
      with ne bid show False by simp
    qed
  qed
  note ru = removeUser_held_elsewhere [of ?s3 ?u ?cn, OF none_here]
  have held_upd: "held_elsewhere ?u ?cn (?upd x) = held_elsewhere ?u ?cn x"
    if "x \<in> set (bookings s)" for x
  proof (cases "booking_id x = k")
    case True
    with bid have "x = b"
      using same_key_same_booking(1) [OF sc that bmem] by simp
    then show ?thesis
      by (simp add: held_elsewhere_def bid)
  next
    case False
    then show ?thesis by simp
  qed
  have lex: "list_ex (\<lambda>x. booking_id x = k' \<and> held_elsewhere ?u ?cn x) (map ?upd (bookings s))
        = list_ex (\<lambda>x. booking_id x = k' \<and> held_elsewhere ?u ?cn x) (bookings s)" for k'
  proof -
    have "list_ex (\<lambda>x. booking_id x = k' \<and> held_elsewhere ?u ?cn x) (map ?upd bs)
          = list_ex (\<lambda>x. booking_id x = k' \<and> held_elsewhere ?u ?cn (?upd x)) bs" for bs
      by (induction bs) auto
    then have "list_ex (\<lambda>x. booking_id x = k' \<and> held_elsewhere ?u ?cn x) (map ?upd (bookings s))
          = list_ex (\<lambda>x. booking_id x = k' \<and> held_elsewhere ?u ?cn (?upd x)) (bookings s)" .
    also have "\<dots> = list_ex (\<lambda>x. booking_id x = k' \<and> held_elsewhere ?u ?cn x) (bookings s)"
      unfolding list_ex_iff using held_upd by blast
    finally show ?thesis .
  qed
  have w3: "waitlist ?s3 = filter (\<lambda>w. w_booking_id w \<noteq> k) (waitlist s)"
    by (simp add: delete_waitlist_def update_booking_def bid)
  have "waitlist ?t =
          filter (\<lambda>w. \<not> list_ex (\<lambda>x. booking_id x = w_booking_id w \<and>
                                    held_elsewhere ?u ?cn x) (bookings ?s3))
            (waitlist ?s3)"
    by (rule ru(2))
  also have "\<dots> =
          filter (\<lambda>w. \<not> list_ex (\<lambda>x. booking_id x = w_booking_id w \<and>
                                    held_elsewhere ?u ?cn x) (map ?upd (bookings s)))
            (filter (\<lambda>w. w_booking_id w \<noteq> k) (waitlist s))"
    by (simp only: b1 w3)
  also have "\<dots> =
          filter (\<lambda>w. \<not> list_ex (\<lambda>x. booking_id x = w_booking_id w \<and>
                                    held_elsewhere ?u ?cn x) (bookings s))
            (filter (\<lambda>w. w_booking_id w \<noteq> k) (waitlist s))"
    by (simp only: lex)
  finally have w: "waitlist ?t =
               filter (\<lambda>w. \<not> list_ex (\<lambda>x. booking_id x = w_booking_id w \<and>
                                    held_elsewhere ?u ?cn x) (bookings s))
                 (filter (\<lambda>w. w_booking_id w \<noteq> k) (waitlist s))" .
  have "conferences ?t =
               map (\<lambda>x. if name x = ?cn
                         then x\<lparr>available_slots := available_slots x - 1\<rparr> else x)
                 (conferences s)"
    by (simp add: removeUser_tables delete_waitlist_def update_booking_def cname)
  moreover have "users ?t = users s"
    by (simp add: removeUser_tables delete_waitlist_def update_booking_def)
  moreover have "bookings ?t = map (\<lambda>x. if held_elsewhere ?u ?cn x
                         then x\<lparr>status := CANCELED\<rparr> else x) (map ?upd (bookings s))"
    using ru(1) by (simp only: b1)
  ultimately show ?thesis
    using res w by blast
qed

lemma find_map_same_id:
  assumes "\<And>x. booking_id (g x) = booking_id x"
  shows "find (\<lambda>b. booking_id b = k) (map g bs) = map_option g (find (\<lambda>b. booking_id b = k) bs)"
  by (induction bs) (simp_all add: assms)

lemma processNext_status_of:
  "status_of (processNextInWaitlist t now cn) k = status_of t k"
  by (cases "waitlist_head t cn"; cases "booking_of t k")
     (auto simp: status_of_def processNext_booking_of)

lemma confirm_success_status:
  assumes "bookings t =
             map (\<lambda>x. if held_elsewhere u cn x then x\<lparr>status := CANCELED\<rparr> else x)
               (map (\<lambda>x. if booking_id x = k
                          then x\<lparr>status := CONFIRMED, confirm_by := None\<rparr> else x)
                  (bookings s))"
    and "booking_of s k = Some b"
  shows "status_of t k = Some CONFIRMED"
proof -
  from assms(2) have "booking_id b = k"
    by (simp add: booking_of_SomeD)
  with assms show ?thesis
    by (simp add: status_of_def booking_of_def find_map_same_id held_elsewhere_def)
qed

text \<open>
  As stated, claim C5 promises the business-rule failure of a booking that does not
  exist for every \<^verbatim>\<open>bookingId\<close>. The route admits any text of 1 to 255 characters,
  while \<^verbatim>\<open>booking_id\<close> is a \<^verbatim>\<open>UUID\<close> column: for the text \<open>9\<close>, which is no UUID and
  which no booking of \<open>db_promoted\<close> has, the \<^verbatim>\<open>SELECT\<close> raises and the call returns
  the catch-all failure \<^verbatim>\<open>Failed to confirm booking\<close>, not \<^verbatim>\<open>Booking not found\<close>; the
  database is unchanged.
\<close>

theorem confirm_malformed_id_counterexample:
  "schema_constraints db_promoted \<and>
   uuid_in ''9'' = None \<and>
   \<not> list_ex (\<lambda>b. booking_id b = ''9'') (bookings db_promoted) \<and>
   confirmWaitlistBooking db_promoted 5 ''9''
     = (Failure ''Failed to confirm booking'', db_promoted) \<and>
   ''Failed to confirm booking'' \<noteq> ''Booking not found''"
  by (simp add: examples_satisfy_schema)
     (simp add: db_promoted_def confirmWaitlistBooking_def booking_with_conference_def uuid_defs)

text \<open>
  C5, amended. Confirm fails exactly when a precondition is violated, for a
  \<^verbatim>\<open>bookingId\<close> that is a UUID, \<open>k\<close> being the text PostgreSQL prints for it. In a
  database that satisfies the schema, \<^verbatim>\<open>confirmWaitlistBooking\<close> checks in this
  order: the booking \<open>k\<close> exists, its status is WAITLISTED, its conference has not
  started, its deadline, when set, has not passed, the conference has a seat left. The
  first check that fails gives its own failure, each with a different message, and
  the database is returned unchanged; when all five hold the call succeeds with
  status CONFIRMED and the booking is CONFIRMED in the resulting database. No other
  outcome exists: a booking always has its conference, and the writes of a
  confirmation cannot raise.
\<close>

theorem confirm_outcome:
  assumes "schema_constraints s" and "uuid_in bookingId = Some k"
  shows "(case booking_of s k of
            None \<Rightarrow> confirmWaitlistBooking s now bookingId = (Failure ''Booking not found'', s)
          | Some b \<Rightarrow>
              (case getConferenceByName s (conference_name b) of
                 None \<Rightarrow> False
               | Some c \<Rightarrow>
                   if status b \<noteq> WAITLISTED
                   then confirmWaitlistBooking s now bookingId =
                          (Failure ''Booking is not in waitlisted status'', s)
                   else if start_time c \<le> now
                   then confirmWaitlistBooking s now bookingId =
                          (Failure ''Cannot confirm booking for conference that has already started'', s)
                   else if (case confirm_by b of None \<Rightarrow> False | Some deadline \<Rightarrow> now > deadline)
                   then confirmWaitlistBooking s now bookingId =
                          (Failure ''Confirmation deadline has passed'', s)
                   else if available_slots c \<le> 0
                   then confirmWaitlistBooking s now bookingId =
                          (Failure ''No slots available to confirm booking'', s)
                   else fst (confirmWaitlistBooking s now bookingId)
                          = Success bookingId CONFIRMED None \<and>
                        status_of (snd (confirmWaitlistBooking s now bookingId)) k
                          = Some CONFIRMED)) \<and>
         distinct [''Booking not found'', ''Booking is not in waitlisted status'',
                   ''Cannot confirm booking for conference that has already started'',
                   ''Confirmation deadline has passed'',
                   ''No slots available to confirm booking'']"
proof (cases "booking_of s k")
  case None
  with assms(2) show ?thesis
    by (simp add: confirmWaitlistBooking_def booking_with_conference_eq)
next
  case (Some b)
  with assms(1) obtain c where c: "getConferenceByName s (conference_name b) = Some c"
    using conference_of_booking by blast
  from assms(2) Some c have join: "booking_with_conference s bookingId = Some (Some (b, c))"
    by (simp add: booking_with_conference_eq)
  show ?thesis
  proof (cases "status b = WAITLISTED \<and> now < start_time c \<and>
                \<not> (case confirm_by b of None \<Rightarrow> False | Some deadline \<Rightarrow> now > deadline) \<and>
                0 < available_slots c")
    case True
    with confirm_success [OF assms Some c, of now] obtain t
      where r: "confirmWaitlistBooking s now bookingId =
                  (Success bookingId CONFIRMED None,
                   processNextInWaitlist t now (conference_name b))"
        and bt: "bookings t =
               map (\<lambda>x. if held_elsewhere (user_id b) (conference_name b) x
                         then x\<lparr>status := CANCELED\<rparr> else x)
                 (map (\<lambda>x. if booking_id x = k
                            then x\<lparr>status := CONFIRMED, confirm_by := None\<rparr> else x)
                    (bookings s))"
      by blast
    from bt Some have "status_of t k = Some CONFIRMED"
      by (rule confirm_success_status)
    with True r Some c show ?thesis
      by (simp add: processNext_status_of)
  next
    case False
    with Some c join show ?thesis
      by (auto simp: confirmWaitlistBooking_def)
  qed
qed

theorem confirm_outcome_witness:
  "schema_constraints db_promoted \<and> schema_constraints db_full \<and>
   uuid_in uuid1 = Some uuid1 \<and> uuid_in uuid2 = Some uuid2 \<and> uuid_in uuid5 = Some uuid5 \<and>
   uuid_in ''{00000000000040008000-000000000002}'' = Some uuid2 \<and>
   confirmWaitlistBooking db_promoted 5 uuid5 = (Failure ''Booking not found'', db_promoted) \<and>
   confirmWaitlistBooking db_promoted 5 uuid1
     = (Failure ''Booking is not in waitlisted status'', db_promoted) \<and>
   confirmWaitlistBooking db_promoted 10000000 uuid2
     = (Failure ''Cannot confirm booking for conference that has already started'', db_promoted) \<and>
   confirmWaitlistBooking db_promoted 3600004 uuid2
     = (Failure ''Confirmation deadline has passed'', db_promoted) \<and>
   confirmWaitlistBooking db_full 5 uuid2
     = (Failure ''No slots available to confirm booking'', db_full) \<and>
   fst (confirmWaitlistBooking db_promoted 5 uuid2) = Success uuid2 CONFIRMED None \<and>
   status_of (snd (confirmWaitlistBooking db_promoted 5 uuid2)) uuid2 = Some CONFIRMED \<and>
   fst (confirmWaitlistBooking db_promoted 5 ''{00000000000040008000-000000000002}'')
     = Success ''{00000000000040008000-000000000002}'' CONFIRMED None \<and>
   status_of (snd (confirmWaitlistBooking db_promoted 5 ''{00000000000040008000-000000000002}''))
     uuid2 = Some CONFIRMED"
proof -
  note p = examples_satisfy_schema(3) and f = examples_satisfy_schema(2)
  note u1 = example_uuids(1) and u2 = example_uuids(2) and u5 = example_uuids(5)
  have ub: "uuid_in ''{00000000000040008000-000000000002}'' = Some uuid2"
    by (simp add: uuid_defs)
  have b5: "booking_of db_promoted uuid5 = None"
    and b1: "booking_of db_promoted uuid1 =
      Some \<lparr>booking_id = uuid1, conference_name = ''K'', user_id = ''a'',
            status = CANCELED, created_at = 1, confirm_by = None\<rparr>"
    and b2: "booking_of db_promoted uuid2 =
      Some \<lparr>booking_id = uuid2, conference_name = ''K'', user_id = ''b'',
            status = WAITLISTED, created_at = 2, confirm_by = Some 3600003\<rparr>"
    and cK: "getConferenceByName db_promoted ''K'' =
      Some \<lparr>name = ''K'', start_time = 10000000, end_time = 20000000,
            total_slots = 1, available_slots = 1\<rparr>"
    by (simp_all add: db_promoted_def booking_of_def getConferenceByName_def)
  have f2: "booking_of db_full uuid2 =
      Some \<lparr>booking_id = uuid2, conference_name = ''K'', user_id = ''b'',
            status = WAITLISTED, created_at = 2, confirm_by = None\<rparr>"
    and fK: "getConferenceByName db_full ''K'' =
      Some \<lparr>name = ''K'', start_time = 10000000, end_time = 20000000,
            total_slots = 1, available_slots = 0\<rparr>"
    by (simp_all add: db_full_def booking_of_def getConferenceByName_def)
  from confirm_outcome [OF p u5, where now = 5] confirm_outcome [OF p u1, where now = 5]
    confirm_outcome [OF p u2, where now = 10000000]
    confirm_outcome [OF p u2, where now = 3600004]
    confirm_outcome [OF f u2, where now = 5] confirm_outcome [OF p u2, where now = 5]
    confirm_outcome [OF p ub, where now = 5] p f u1 u2 u5 ub
  show ?thesis
    by (simp add: b5 b1 b2 cK f2 fK)
qed

lemma joined_waitlist_total_fk:
  assumes "\<And>w. w \<in> set (waitlist s) \<Longrightarrow> w_booking_id w \<in> booking_id ` set (bookings s)"
  shows "joined_waitlist s cn = waitlist_of s cn"
proof -
  from assms have "\<forall>w\<in>set (waitlist_of s cn).
      list_ex (\<lambda>b. booking_id b = w_booking_id w) (bookings s)"
    by (simp add: list_ex_booking_id waitlist_of_def)
  then show ?thesis
    unfolding joined_waitlist_def by (simp only: filter_True)
qed

lemma waitlist_head_processNext:
  "waitlist_head (processNextInWaitlist t now cn') cn = waitlist_head t cn"
proof -
  have "booking_id ` set (bookings (processNextInWaitlist t now cn')) = booking_id ` set (bookings t)"
    using processNext_tables(4) [of t now cn'] by (metis set_map)
  then show ?thesis
    by (simp add: waitlist_head_def joined_waitlist_def waitlist_of_def list_ex_booking_id
          processNext_tables(2))
qed

lemma processNext_head_promoted:
  assumes fk: "\<And>w. w \<in> set (waitlist t) \<Longrightarrow> w_booking_id w \<in> booking_id ` set (bookings t)"
  shows "head_has_deadline (processNextInWaitlist t now cn) cn (now + 60 * 60 * 1000)"
proof -
  let ?s' = "processNextInWaitlist t now cn"
  have wl: "waitlist_of ?s' cn = waitlist_of t cn"
    by (simp add: waitlist_of_def processNext_tables(2))
  have jt: "joined_waitlist t cn = waitlist_of t cn"
    using fk by (rule joined_waitlist_total_fk)
  show ?thesis
  proof (cases "waitlist_head t cn")
    case None
    then have "joined_waitlist t cn = []"
      using waitlist_head_exists [of t cn] by auto
    with None jt wl show ?thesis
      by (simp add: head_has_deadline_def waitlist_head_processNext)
  next
    case (Some w)
    note h = waitlist_headD [OF Some]
    from h(2) obtain b where b: "booking_of t (w_booking_id w) = Some b"
      using booking_of_Some_iff by blast
    from h(3) jt have "list_all (\<lambda>w'. position w \<le> position w') (waitlist_of t cn)"
      by (simp add: list_all_iff)
    with Some h(1) b wl show ?thesis
      by (simp add: head_has_deadline_def waitlist_head_processNext confirm_by_of_def
            processNext_booking_of)
  qed
qed

lemma confirm_SuccessD:
  assumes "confirmWaitlistBooking s now bookingId = (Success k' st p, s')"
    and "uuid_in bookingId = Some k" and "booking_of s k = Some b"
  shows "\<exists>c. getConferenceByName s (conference_name b) = Some c \<and> status b = WAITLISTED \<and>
             now < start_time c \<and>
             \<not> (case confirm_by b of None \<Rightarrow> False | Some deadline \<Rightarrow> now > deadline) \<and>
             0 < available_slots c"
  using assms
  by (cases "getConferenceByName s (conference_name b)")
     (auto simp: confirmWaitlistBooking_def booking_with_conference_eq split: if_splits option.splits)

lemma confirm_success_fk:
  assumes "schema_constraints s"
    and "bookings t = map g (map f (bookings s))"
    and "\<And>x. booking_id (g x) = booking_id x" and "\<And>x. booking_id (f x) = booking_id x"
    and "waitlist t = filter P (filter Q (waitlist s))"
    and "w \<in> set (waitlist t)"
  shows "w_booking_id w \<in> booking_id ` set (bookings t)"
proof -
  from assms(5,6) have "w \<in> set (waitlist s)" by simp
  with assms(1) have "w_booking_id w \<in> booking_id ` set (bookings s)"
    by (rule schema_constraintsD(7))
  moreover have "map booking_id (bookings t) = map booking_id (bookings s)"
    by (simp add: assms(2,3,4) comp_def)
  then have "booking_id ` set (bookings t) = booking_id ` set (bookings s)"
    by (metis set_map)
  ultimately show ?thesis by simp
qed

text \<open>
  C6. Unconditional promotion after confirm. In a database that satisfies the schema,
  every successful \<^verbatim>\<open>confirmWaitlistBooking\<close> takes one seat of the booking's
  conference and ends with \<^verbatim>\<open>processNextInWaitlist\<close> for that conference, whatever
  number of seats is left, zero included: in the resulting database the waitlist of
  the conference is empty or its head holds the deadline \<open>now + 1 hour\<close>. Promotion
  itself, on any database, leaves the conferences (so every capacity), every booking's
  status and the waitlist rows as they were.
\<close>

theorem confirm_promotes_unconditionally:
  assumes "schema_constraints s" and "booking_of s k = Some b"
    and "confirmWaitlistBooking s now k = (Success k CONFIRMED None, s')"
  shows "head_has_deadline s' (conference_name b) (now + 60 * 60 * 1000) \<and>
         conferences s' =
           map (\<lambda>x. if name x = conference_name b
                     then x\<lparr>available_slots := available_slots x - 1\<rparr> else x)
             (conferences s) \<and>
         conferences (processNextInWaitlist t now cn) = conferences t \<and>
         map status (bookings (processNextInWaitlist t now cn)) = map status (bookings t) \<and>
         waitlist (processNextInWaitlist t now cn) = waitlist t"
proof -
  from assms(1,2) have ui: "uuid_in k = Some k"
    by (rule stored_uuid)
  from confirm_SuccessD [OF assms(3) ui assms(2)] obtain c
    where "getConferenceByName s (conference_name b) = Some c" and "status b = WAITLISTED"
      and "now < start_time c"
      and "\<not> (case confirm_by b of None \<Rightarrow> False | Some deadline \<Rightarrow> now > deadline)"
      and "0 < available_slots c"
    by blast
  from confirm_success [OF assms(1) ui assms(2) this] assms(3) obtain t'
    where s': "s' = processNextInWaitlist t' now (conference_name b)"
      and ct: "conferences t' =
               map (\<lambda>x. if name x = conference_name b
                         then x\<lparr>available_slots := available_slots x - 1\<rparr> else x)
                 (conferences s)"
      and bt: "bookings t' =
               map (\<lambda>x. if held_elsewhere (user_id b) (conference_name b) x
                         then x\<lparr>status := CANCELED\<rparr> else x)
                 (map (\<lambda>x. if booking_id x = k
                            then x\<lparr>status := CONFIRMED, confirm_by := None\<rparr> else x)
                    (bookings s))"
      and wt: "waitlist t' =
               filter (\<lambda>w. \<not> list_ex (\<lambda>x. booking_id x = w_booking_id w \<and>
                                    held_elsewhere (user_id b) (conference_name b) x)
                              (bookings s))
                 (filter (\<lambda>w. w_booking_id w \<noteq> k) (waitlist s))"
    by auto
  have "w_booking_id w \<in> booking_id ` set (bookings t')" if "w \<in> set (waitlist t')" for w
    using assms(1) bt _ _ wt that by (rule confirm_success_fk) simp_all
  then have "head_has_deadline s' (conference_name b) (now + 60 * 60 * 1000)"
    unfolding s' by (rule processNext_head_promoted)
  with ct show ?thesis
    by (simp add: s' processNext_tables)
qed

theorem confirm_promotes_unconditionally_witness:
  "schema_constraints db_queue \<and>
   confirmWaitlistBooking db_queue 5 uuid2 =
     (Success uuid2 CONFIRMED None, snd (confirmWaitlistBooking db_queue 5 uuid2)) \<and>
   map available_slots (conferences (snd (confirmWaitlistBooking db_queue 5 uuid2))) = [0, 1] \<and>
   head_has_deadline (snd (confirmWaitlistBooking db_queue 5 uuid2)) ''K'' 3600005 \<and>
   waitlist_head (snd (confirmWaitlistBooking db_queue 5 uuid2)) ''K'' =
     Some \<lparr>w_conference_name = ''K'', w_booking_id = uuid3, position = 2, w_created_at = 3\<rparr> \<and>
   confirm_by_of (snd (confirmWaitlistBooking db_queue 5 uuid2)) uuid3 = Some (Some 3600005)"
proof -
  let ?b = "\<lparr>booking_id = uuid2, conference_name = ''K'', user_id = ''b'',
             status = WAITLISTED, created_at = 2, confirm_by = Some 3600004\<rparr>"
  note q = examples_satisfy_schema(4)
  have b: "booking_of db_queue uuid2 = Some ?b"
    by (simp add: db_queue_def booking_of_def)
  have r: "confirmWaitlistBooking db_queue 5 uuid2 =
     (Success uuid2 CONFIRMED None, snd (confirmWaitlistBooking db_queue 5 uuid2))"
    by (simp add: db_queue_def engine_defs example_uuids)
  have v: "map available_slots (conferences (snd (confirmWaitlistBooking db_queue 5 uuid2))) = [0, 1]"
    "waitlist_head (snd (confirmWaitlistBooking db_queue 5 uuid2)) ''K'' =
     Some \<lparr>w_conference_name = ''K'', w_booking_id = uuid3, position = 2, w_created_at = 3\<rparr>"
    "confirm_by_of (snd (confirmWaitlistBooking db_queue 5 uuid2)) uuid3 = Some (Some 3600005)"
    by (simp_all add: db_queue_def engine_defs example_uuids confirm_by_of_def booking_of_def)
  from confirm_promotes_unconditionally [OF q b r] q r v show ?thesis
    by simp
qed

section \<open>Displacement\<close>

lemma bookConference_confirmedD:
  assumes "bookConference s now k cn uid = (Success k' CONFIRMED p, s')"
  shows "\<not> hasExistingBooking s uid cn" and "book_confirmed s now k cn uid = Some s'"
  using assms
  by (auto simp: bookConference_def split: option.splits bool.splits if_splits)

lemma book_confirmed_uuid:
  "book_confirmed s now bookingId cn uid = Some s' \<Longrightarrow> \<exists>k. uuid_in bookingId = Some k"
  by (cases "uuid_in bookingId") (simp_all add: book_confirmed_def)

lemma book_confirmed_tables:
  assumes "\<not> hasExistingBooking s uid cn" and "book_confirmed s now bookingId cn uid = Some s'"
    and "uuid_in bookingId = Some k"
  shows "bookings s' =
           map (\<lambda>x. if held_elsewhere uid cn x then x\<lparr>status := CANCELED\<rparr> else x) (bookings s) @
           [\<lparr>booking_id = k, conference_name = cn, user_id = uid,
             status = CONFIRMED, created_at = now, confirm_by = None\<rparr>]"
    and "waitlist s' =
           filter (\<lambda>w. \<not> list_ex (\<lambda>x. booking_id x = w_booking_id w \<and> held_elsewhere uid cn x)
                          (bookings s))
             (waitlist s)"
    and "k \<notin> booking_id ` set (bookings s)"
proof -
  let ?b = "\<lparr>booking_id = k, conference_name = cn, user_id = uid,
             status = CONFIRMED, created_at = now, confirm_by = None\<rparr>"
  from assms(2,3) obtain s1 s2 where ins: "insert_booking s ?b = Some s1"
    and upd: "update_available_slots s1 cn (- 1) = Some s2"
    and s': "s' = removeUserFromAllWaitlists s2 uid cn"
    by (auto simp: book_confirmed_def split: option.splits)
  note s1 = insert_bookingD [OF ins]
  from s1(2) show "k \<notin> booking_id ` set (bookings s)" by simp
  from upd have "bookings s2 = bookings s1 \<and> waitlist s2 = waitlist s1"
    by (cases "list_all (\<lambda>c. name c = cn \<longrightarrow> 0 \<le> available_slots c + - 1 \<and>
                               available_slots c + - 1 \<le> total_slots c) (conferences s1)")
       (auto simp: update_available_slots_def)
  then have b2: "bookings s2 = bookings s @ [?b]" and w2: "waitlist s2 = waitlist s"
    by (simp_all add: s1(1))
  have none_here: "conference_name x \<noteq> cn"
    if "x \<in> set (bookings s2)" and "user_id x = uid" and "status x = WAITLISTED" for x
  proof -
    have "x \<in> set (bookings s)"
    proof (rule ccontr)
      assume "x \<notin> set (bookings s)"
      with that(1) have "x = ?b"
        by (simp add: b2)
      then have "status x = CONFIRMED"
        by simp
      with that(3) show False
        by simp
    qed
    with assms(1) that(2,3) show ?thesis
      by (auto simp: hasExistingBooking_def list_ex_iff)
  qed
  note ru = removeUser_held_elsewhere [of s2 uid cn, OF none_here]
  have nh: "\<not> held_elsewhere uid cn ?b"
    by (simp add: held_elsewhere_def)
  from ru(1) have "bookings s' =
      map (\<lambda>x. if held_elsewhere uid cn x then x\<lparr>status := CANCELED\<rparr> else x) (bookings s @ [?b])"
    by (simp only: s' b2)
  also from nh have "\<dots> =
      map (\<lambda>x. if held_elsewhere uid cn x then x\<lparr>status := CANCELED\<rparr> else x) (bookings s) @ [?b]"
    by (simp only: map_append list.map if_False)
  finally show "bookings s' =
           map (\<lambda>x. if held_elsewhere uid cn x then x\<lparr>status := CANCELED\<rparr> else x) (bookings s) @ [?b]" .
  from nh
  have lex: "list_ex (\<lambda>x. booking_id x = k' \<and> held_elsewhere uid cn x) (bookings s @ [?b])
        = list_ex (\<lambda>x. booking_id x = k' \<and> held_elsewhere uid cn x) (bookings s)" for k'
    by simp
  from ru(2) have "waitlist s' =
           filter (\<lambda>w. \<not> list_ex (\<lambda>x. booking_id x = w_booking_id w \<and> held_elsewhere uid cn x)
                          (bookings s @ [?b]))
             (waitlist s)"
    by (simp only: s' b2 w2)
  then show "waitlist s' =
           filter (\<lambda>w. \<not> list_ex (\<lambda>x. booking_id x = w_booking_id w \<and> held_elsewhere uid cn x)
                          (bookings s))
             (waitlist s)"
    by (simp only: lex)
qed

lemma find_append_Some:
  "find P xs = Some x \<Longrightarrow> find P (xs @ ys) = Some x"
  by (induction xs) (auto split: if_splits)

lemma displaced_rows_gone:
  assumes "set ws' \<subseteq> {w \<in> set ws. \<not> list_ex (\<lambda>x. booking_id x = w_booking_id w \<and> H x) bs}"
    and "x \<in> set bs" and "H x"
  shows "\<not> list_ex (\<lambda>w. w_booking_id w = booking_id x) ws'"
proof
  assume "list_ex (\<lambda>w. w_booking_id w = booking_id x) ws'"
  then obtain w where "w \<in> set ws'" and w: "w_booking_id w = booking_id x"
    by (auto simp: list_ex_iff)
  with assms(1) have "\<not> list_ex (\<lambda>x. booking_id x = w_booking_id w \<and> H x) bs"
    by auto
  with assms(2,3) w show False
    by (auto simp: list_ex_iff)
qed

lemma book_confirmed_displacement:
  assumes sc: "schema_constraints s"
    and r: "bookConference s now k cn uid = (Success k' CONFIRMED p, s')"
  shows "displacement_done s s' k uid cn"
proof -
  let ?cancel = "\<lambda>x. if held_elsewhere uid cn x then x\<lparr>status := CANCELED\<rparr> else x"
  note bc = bookConference_confirmedD [OF r]
  from bc(2) obtain u where u: "uuid_in k = Some u"
    using book_confirmed_uuid by blast
  note t = book_confirmed_tables [OF bc u]
  have fresh: "w_booking_id w \<noteq> k" if "w \<in> set (waitlist s)" for w
  proof
    assume eq: "w_booking_id w = k"
    from schema_constraintsD(7) [OF sc that] obtain x
      where x: "x \<in> set (bookings s)" and wx: "w_booking_id w = booking_id x"
      by auto
    from schema_constraintsD(8) [OF sc x] eq wx u have "booking_id x = u"
      by simp
    with x t(3) show False
      by auto
  qed
  have wl: "waitlist s' =
       filter (\<lambda>w. w_booking_id w \<noteq> k \<and>
                   \<not> list_ex (\<lambda>x. booking_id x = w_booking_id w \<and> held_elsewhere uid cn x)
                        (bookings s))
         (waitlist s)"
    unfolding t(2) by (rule filter_cong) (auto simp: fresh)
  have "status_of s' (booking_id x) = Some CANCELED \<and>
        \<not> list_ex (\<lambda>w. w_booking_id w = booking_id x) (waitlist s')"
    if x: "x \<in> set (bookings s)" and h: "held_elsewhere uid cn x" for x
  proof
    from sc x have "booking_of s (booking_id x) = Some x"
      by (intro booking_of_member schema_constraintsD(3))
    then have "find (\<lambda>b. booking_id b = booking_id x) (map ?cancel (bookings s)) = Some (?cancel x)"
      by (simp add: find_map_same_id booking_of_def)
    then have "find (\<lambda>b. booking_id b = booking_id x) (bookings s') = Some (?cancel x)"
      unfolding t(1) by (rule find_append_Some)
    with h show "status_of s' (booking_id x) = Some CANCELED"
      by (simp add: status_of_def booking_of_def)
    have "set (waitlist s') \<subseteq> {w \<in> set (waitlist s).
            \<not> list_ex (\<lambda>x. booking_id x = w_booking_id w \<and> held_elsewhere uid cn x) (bookings s)}"
      by (auto simp: t(2))
    then show "\<not> list_ex (\<lambda>w. w_booking_id w = booking_id x) (waitlist s')"
      using x h by (rule displaced_rows_gone)
  qed
  with wl show ?thesis
    by (simp add: displacement_done_def list_all_iff)
qed

lemma confirm_displacement:
  assumes sc: "schema_constraints s" and bo: "booking_of s k = Some b"
    and r: "confirmWaitlistBooking s now k = (Success k' CONFIRMED p, s')"
  shows "displacement_done s s' k (user_id b) (conference_name b)"
proof -
  let ?u = "user_id b" and ?cn = "conference_name b"
  let ?cancel = "\<lambda>x. if held_elsewhere ?u ?cn x then x\<lparr>status := CANCELED\<rparr> else x"
  let ?upd = "\<lambda>x. if booking_id x = k then x\<lparr>status := CONFIRMED, confirm_by := None\<rparr> else x"
  from sc bo have ui: "uuid_in k = Some k"
    by (rule stored_uuid)
  from confirm_SuccessD [OF r ui bo] obtain c
    where "getConferenceByName s ?cn = Some c" and "status b = WAITLISTED"
      and "now < start_time c"
      and "\<not> (case confirm_by b of None \<Rightarrow> False | Some deadline \<Rightarrow> now > deadline)"
      and "0 < available_slots c"
    by blast
  from confirm_success [OF sc ui bo this] r obtain t
    where s': "s' = processNextInWaitlist t now ?cn"
      and bt: "bookings t = map ?cancel (map ?upd (bookings s))"
      and wt: "waitlist t =
               filter (\<lambda>w. \<not> list_ex (\<lambda>x. booking_id x = w_booking_id w \<and>
                                    held_elsewhere ?u ?cn x) (bookings s))
                 (filter (\<lambda>w. w_booking_id w \<noteq> k) (waitlist s))"
    by auto
  from bo have bmem: "b \<in> set (bookings s)" and bid: "booking_id b = k"
    by (simp_all add: booking_of_SomeD)
  have wl: "waitlist s' =
       filter (\<lambda>w. w_booking_id w \<noteq> k \<and>
                   \<not> list_ex (\<lambda>x. booking_id x = w_booking_id w \<and> held_elsewhere ?u ?cn x)
                        (bookings s))
         (waitlist s)"
    by (simp add: s' processNext_tables(2) wt)
  have "status_of s' (booking_id x) = Some CANCELED \<and>
        \<not> list_ex (\<lambda>w. w_booking_id w = booking_id x) (waitlist s')"
    if x: "x \<in> set (bookings s)" and h: "held_elsewhere ?u ?cn x" for x
  proof
    from h have "x \<noteq> b" by (auto simp: held_elsewhere_def)
    with bid have ne: "booking_id x \<noteq> k"
      using same_key_same_booking(1) [OF sc x bmem] by auto
    from sc x have "booking_of s (booking_id x) = Some x"
      by (intro booking_of_member schema_constraintsD(3))
    then have "find (\<lambda>b. booking_id b = booking_id x) (map ?cancel (map ?upd (bookings s)))
               = Some (?cancel (?upd x))"
      by (simp add: find_map_same_id booking_of_def)
    with h ne have "status_of t (booking_id x) = Some CANCELED"
      by (simp add: status_of_def booking_of_def bt)
    then show "status_of s' (booking_id x) = Some CANCELED"
      by (simp add: s' processNext_status_of)
    have "set (waitlist s') \<subseteq> {w \<in> set (waitlist s).
            \<not> list_ex (\<lambda>x. booking_id x = w_booking_id w \<and> held_elsewhere ?u ?cn x) (bookings s)}"
      by (auto simp: wl)
    then show "\<not> list_ex (\<lambda>w. w_booking_id w = booking_id x) (waitlist s')"
      using x h by (rule displaced_rows_gone)
  qed
  with wl show ?thesis
    by (simp add: displacement_done_def list_all_iff)
qed

text \<open>
  C8. Displacement effect and frame. In a database that satisfies the schema, when a
  requester gains a CONFIRMED booking of a conference, through the confirmed branch of
  \<^verbatim>\<open>bookConference\<close> or through \<^verbatim>\<open>confirmWaitlistBooking\<close>, every WAITLISTED booking
  the requester holds for another conference is CANCELED in the resulting database and
  has no waitlist row there, and the resulting waitlist is the old one without the
  rows of those bookings (and of the booking just confirmed): every other row, of
  whatever conference, is kept as it was, position included. No position is
  recomputed.
\<close>

theorem displacement_effect_and_frame:
  assumes "schema_constraints s"
  shows "(fst (bookConference s now k cn uid) = Success k CONFIRMED None \<longrightarrow>
            displacement_done s (snd (bookConference s now k cn uid)) k uid cn) \<and>
         (booking_of s k = Some b \<and>
          fst (confirmWaitlistBooking s now k) = Success k CONFIRMED None \<longrightarrow>
            displacement_done s (snd (confirmWaitlistBooking s now k)) k
              (user_id b) (conference_name b))"
proof (intro conjI impI)
  assume "fst (bookConference s now k cn uid) = Success k CONFIRMED None"
  then have "bookConference s now k cn uid =
               (Success k CONFIRMED None, snd (bookConference s now k cn uid))"
    by (simp add: prod_eq_iff)
  with assms show "displacement_done s (snd (bookConference s now k cn uid)) k uid cn"
    by (rule book_confirmed_displacement)
next
  assume a: "booking_of s k = Some b \<and>
             fst (confirmWaitlistBooking s now k) = Success k CONFIRMED None"
  then have "confirmWaitlistBooking s now k =
               (Success k CONFIRMED None, snd (confirmWaitlistBooking s now k))"
    by (simp add: prod_eq_iff)
  with assms a show "displacement_done s (snd (confirmWaitlistBooking s now k)) k
              (user_id b) (conference_name b)"
    by (intro confirm_displacement) simp_all
qed

theorem displacement_effect_and_frame_witness:
  "schema_constraints db_displace \<and> schema_constraints db_two_lists \<and>
   fst (bookConference db_displace 4 uuid4 ''K'' ''b'') = Success uuid4 CONFIRMED None \<and>
   displacement_done db_displace (snd (bookConference db_displace 4 uuid4 ''K'' ''b''))
     uuid4 ''b'' ''K'' \<and>
   status_of (snd (bookConference db_displace 4 uuid4 ''K'' ''b'')) uuid2 = Some CANCELED \<and>
   waitlist (snd (bookConference db_displace 4 uuid4 ''K'' ''b'')) =
     [\<lparr>w_conference_name = ''L'', w_booking_id = uuid3, position = 2, w_created_at = 3\<rparr>] \<and>
   fst (confirmWaitlistBooking db_two_lists 7 uuid2) = Success uuid2 CONFIRMED None \<and>
   displacement_done db_two_lists (snd (confirmWaitlistBooking db_two_lists 7 uuid2))
     uuid2 ''b'' ''K'' \<and>
   status_of (snd (confirmWaitlistBooking db_two_lists 7 uuid2)) uuid4 = Some CANCELED \<and>
   waitlist (snd (confirmWaitlistBooking db_two_lists 7 uuid2)) =
     [\<lparr>w_conference_name = ''L'', w_booking_id = uuid5, position = 2, w_created_at = 5\<rparr>]"
proof -
  note d = examples_satisfy_schema(5) and t = examples_satisfy_schema(7)
  let ?b = "\<lparr>booking_id = uuid2, conference_name = ''K'', user_id = ''b'',
             status = WAITLISTED, created_at = 2, confirm_by = Some 3600006\<rparr>"
  have b: "booking_of db_two_lists uuid2 = Some ?b"
    by (simp add: db_two_lists_def booking_of_def)
  have r1: "fst (bookConference db_displace 4 uuid4 ''K'' ''b'') = Success uuid4 CONFIRMED None"
    and v1: "status_of (snd (bookConference db_displace 4 uuid4 ''K'' ''b'')) uuid2 = Some CANCELED"
      "waitlist (snd (bookConference db_displace 4 uuid4 ''K'' ''b'')) =
         [\<lparr>w_conference_name = ''L'', w_booking_id = uuid3, position = 2, w_created_at = 3\<rparr>]"
    by (simp_all add: db_displace_def engine_defs example_uuids status_of_def booking_of_def)
  have r2: "fst (confirmWaitlistBooking db_two_lists 7 uuid2) = Success uuid2 CONFIRMED None"
    and v2: "status_of (snd (confirmWaitlistBooking db_two_lists 7 uuid2)) uuid4 = Some CANCELED"
      "waitlist (snd (confirmWaitlistBooking db_two_lists 7 uuid2)) =
         [\<lparr>w_conference_name = ''L'', w_booking_id = uuid5, position = 2, w_created_at = 5\<rparr>]"
    by (simp_all add: db_two_lists_def engine_defs example_uuids status_of_def booking_of_def)
  from displacement_effect_and_frame
         [OF d, where now = 4 and k = "uuid4" and cn = "''K''" and uid = "''b''"]
    displacement_effect_and_frame [OF t, where now = 7 and k = "uuid2" and b = ?b]
    d t b r1 r2 v1 v2
  show ?thesis
    by simp
qed

section \<open>Cancellation\<close>

lemma confirmed_count_pos:
  assumes "b \<in> set (bookings s)" and "status b = CONFIRMED"
  shows "1 \<le> confirmed_count s (conference_name b)"
proof -
  from assms have "b \<in> set (filter (is_confirmed_for (conference_name b)) (bookings s))"
    by (simp add: is_confirmed_for_def)
  then have "0 < length (filter (is_confirmed_for (conference_name b)) (bookings s))"
    by (rule length_pos_if_in_set)
  then show ?thesis
    unfolding confirmed_count_def by linarith
qed

lemma cancel_confirmed_success:
  assumes sc: "schema_constraints s" and li: "ledger_invariant s"
    and ui: "uuid_in bookingId = Some k" and bo: "booking_of s k = Some b"
    and gc: "getConferenceByName s (conference_name b) = Some c"
    and nst: "now < start_time c" and st: "status b = CONFIRMED"
  shows "cancelBooking visit s now bookingId =
           (Success bookingId CANCELED None,
            processNextInWaitlist
              ((update_booking s (\<lambda>x. booking_id x = k) (\<lambda>x. x\<lparr>status := CANCELED\<rparr>))
                 \<lparr>conferences :=
                    map (\<lambda>x. if name x = conference_name b
                              then x\<lparr>available_slots := available_slots x + 1\<rparr> else x)
                      (conferences s)\<rparr>)
              now (conference_name b))"
proof -
  let ?cn = "conference_name b"
  let ?s1 = "update_booking s (\<lambda>x. booking_id x = k) (\<lambda>x. x\<lparr>status := CANCELED\<rparr>)"
  from bo have bmem: "b \<in> set (bookings s)" and bid: "booking_id b = k"
    by (simp_all add: booking_of_SomeD)
  from gc have cmem: "c \<in> set (conferences s)" and cname: "name c = ?cn"
    by (simp_all add: getConferenceByName_SomeD)
  from li cmem have "available_slots c = total_slots c - confirmed_count s (name c)"
    by (simp add: ledger_invariant_def list_all_iff)
  moreover from bmem st have "1 \<le> confirmed_count s ?cn"
    by (rule confirmed_count_pos)
  ultimately have le: "available_slots c + 1 \<le> total_slots c"
    by (simp add: cname)
  from sc cmem have "conference_checks c"
    by (rule schema_constraintsD(2))
  then have ge: "0 \<le> available_slots c + 1"
    by (simp add: conference_checks_def)
  from sc have "distinct (map name (conferences ?s1))"
    by (simp add: update_booking_def schema_constraintsD(1))
  moreover from cmem have "c \<in> set (conferences ?s1)"
    by (simp add: update_booking_def)
  ultimately have "update_available_slots ?s1 (name c) 1 =
      Some (?s1\<lparr>conferences :=
                 map (\<lambda>x. if name x = name c
                           then x\<lparr>available_slots := available_slots x + 1\<rparr> else x)
                   (conferences ?s1)\<rparr>)"
    using ge le by (intro update_available_slots_Some)
  then have "cancel_writes visit s now b =
      Some (processNextInWaitlist
              (?s1\<lparr>conferences :=
                    map (\<lambda>x. if name x = ?cn
                              then x\<lparr>available_slots := available_slots x + 1\<rparr> else x)
                      (conferences s)\<rparr>)
              now ?cn)"
    by (simp add: cancel_writes_def Let_def bid st cname update_booking_def)
  moreover from ui bo gc have "booking_with_conference s bookingId = Some (Some (b, c))"
    by (simp add: booking_with_conference_eq)
  ultimately show ?thesis
    using nst st by (simp add: cancelBooking_def)
qed

lemma cancel_confirmed_post:
  assumes sc: "schema_constraints s" and bo: "booking_of s k = Some b"
    and s'_def: "s' = processNextInWaitlist
              ((update_booking s (\<lambda>x. booking_id x = k) (\<lambda>x. x\<lparr>status := CANCELED\<rparr>))
                 \<lparr>conferences :=
                    map (\<lambda>x. if name x = conference_name b
                              then x\<lparr>available_slots := available_slots x + 1\<rparr> else x)
                      (conferences s)\<rparr>)
              now (conference_name b)"
  shows "status_of s' k = Some CANCELED"
    and "conferences s' =
           map (\<lambda>x. if name x = conference_name b
                     then x\<lparr>available_slots := available_slots x + 1\<rparr> else x)
             (conferences s)"
    and "waitlist s' = waitlist s"
    and "head_has_deadline s' (conference_name b) (now + 60 * 60 * 1000)"
proof -
  let ?s1 = "update_booking s (\<lambda>x. booking_id x = k) (\<lambda>x. x\<lparr>status := CANCELED\<rparr>)"
  let ?s2 = "?s1\<lparr>conferences :=
                    map (\<lambda>x. if name x = conference_name b
                              then x\<lparr>available_slots := available_slots x + 1\<rparr> else x)
                      (conferences s)\<rparr>"
  from bo have bid: "booking_id b = k"
    by (simp add: booking_of_SomeD)
  have "booking_of ?s1 k = Some (b\<lparr>status := CANCELED\<rparr>)"
    by (simp add: booking_of_update_booking bo bid)
  moreover have "bookings ?s2 = bookings ?s1"
    by simp
  ultimately have "status_of ?s2 k = Some CANCELED"
    by (simp add: status_of_def booking_of_def)
  then show "status_of s' k = Some CANCELED"
    by (simp add: s'_def processNext_status_of)
  show "conferences s' =
           map (\<lambda>x. if name x = conference_name b
                     then x\<lparr>available_slots := available_slots x + 1\<rparr> else x)
             (conferences s)"
    by (simp add: s'_def processNext_tables)
  show "waitlist s' = waitlist s"
    by (simp add: s'_def processNext_tables update_booking_def)
  have "w_booking_id w \<in> booking_id ` set (bookings ?s2)" if "w \<in> set (waitlist ?s2)" for w
  proof -
    from that have "w \<in> set (waitlist s)"
      by (simp add: update_booking_def)
    with sc have "w_booking_id w \<in> booking_id ` set (bookings s)"
      by (rule schema_constraintsD(7))
    moreover have "map booking_id (bookings ?s2) = map booking_id (bookings s)"
      by (simp add: update_booking_def comp_def)
    then have "booking_id ` set (bookings ?s2) = booking_id ` set (bookings s)"
      by (metis set_map)
    ultimately show ?thesis by simp
  qed
  then show "head_has_deadline s' (conference_name b) (now + 60 * 60 * 1000)"
    unfolding s'_def by (rule processNext_head_promoted)
qed

text \<open>
  The part of claim C7 about a CONFIRMED booking holds, whatever the order in which
  \<^verbatim>\<open>reorderWaitlist\<close> would visit its rows (this branch does not call it): in a
  database that satisfies the schema and the capacity ledger, canceling a CONFIRMED
  booking whose conference has not started succeeds, the booking is CANCELED,
  \<open>available_slots\<close> of its conference is one more than before, the waitlist rows are
  untouched and the head of the conference's waitlist, if there is one, holds the
  deadline \<open>now + 1 hour\<close>.
\<close>

lemma cancel_confirmed_postcondition:
  assumes "schema_constraints s" and "ledger_invariant s"
    and "uuid_in bookingId = Some k" and "booking_of s k = Some b"
    and "getConferenceByName s (conference_name b) = Some c" and "now < start_time c"
    and "status b = CONFIRMED"
  shows "fst (cancelBooking visit s now bookingId) = Success bookingId CANCELED None"
    and "status_of (snd (cancelBooking visit s now bookingId)) k = Some CANCELED"
    and "conferences (snd (cancelBooking visit s now bookingId)) =
           map (\<lambda>x. if name x = conference_name b
                     then x\<lparr>available_slots := available_slots x + 1\<rparr> else x)
             (conferences s)"
    and "waitlist (snd (cancelBooking visit s now bookingId)) = waitlist s"
    and "head_has_deadline (snd (cancelBooking visit s now bookingId)) (conference_name b)
           (now + 60 * 60 * 1000)"
proof -
  note r = cancel_confirmed_success [OF assms, of visit]
  then have s': "snd (cancelBooking visit s now bookingId) =
            processNextInWaitlist
              ((update_booking s (\<lambda>x. booking_id x = k) (\<lambda>x. x\<lparr>status := CANCELED\<rparr>))
                 \<lparr>conferences :=
                    map (\<lambda>x. if name x = conference_name b
                              then x\<lparr>available_slots := available_slots x + 1\<rparr> else x)
                      (conferences s)\<rparr>)
              now (conference_name b)"
    by simp
  note post = cancel_confirmed_post [OF assms(1,4) s']
  from r show "fst (cancelBooking visit s now bookingId) = Success bookingId CANCELED None"
    by simp
  from post(1) show "status_of (snd (cancelBooking visit s now bookingId)) k = Some CANCELED" .
  from post(2) show "conferences (snd (cancelBooking visit s now bookingId)) =
           map (\<lambda>x. if name x = conference_name b
                     then x\<lparr>available_slots := available_slots x + 1\<rparr> else x)
             (conferences s)" .
  from post(3) show "waitlist (snd (cancelBooking visit s now bookingId)) = waitlist s" .
  from post(4) show "head_has_deadline (snd (cancelBooking visit s now bookingId))
           (conference_name b) (now + 60 * 60 * 1000)" .
qed

text \<open>
  C7. Cancel postcondition by prior status: canceling a WAITLISTED booking whose
  conference has not started should set it to CANCELED, delete its waitlist row and
  leave the remaining rows at the dense positions \<open>1, \<dots>, N\<close> in \<^verbatim>\<open>created_at\<close> order.
  \<^verbatim>\<open>cancelBooking\<close> attempts it: it deletes the row and calls \<^verbatim>\<open>reorderWaitlist\<close>, one
  \<^verbatim>\<open>UPDATE\<close> that writes every row's new number. But \<^verbatim>\<open>UNIQUE(conference_name, position)\<close>
  is checked row by row, and the \<^verbatim>\<open>UPDATE\<close> fixes no order of the rows. In \<open>db_three\<close>
  the bookings \<open>uuid2\<close>, \<open>uuid3\<close> and \<open>uuid4\<close> wait for \<open>K\<close> at the dense positions 1, 2
  and 3, and \<open>uuid2\<close> is canceled before \<open>K\<close> starts. When the \<^verbatim>\<open>UPDATE\<close> visits the
  row of \<open>uuid4\<close> before the row of \<open>uuid3\<close>, it writes position 2 to the row of
  \<open>uuid4\<close> while the row of \<open>uuid3\<close> still has it: the statement raises, the
  transaction is rolled back and the call returns \<^verbatim>\<open>Failed to cancel booking\<close>, the
  booking still WAITLISTED with its row at position 1. When it visits the rows in the
  order of their numbers, the call succeeds and leaves the rows of \<open>uuid3\<close> and
  \<open>uuid4\<close> at positions 1 and 2.
\<close>

theorem cancel_waitlisted_reorder_raises:
  "schema_constraints db_three \<and>
   map (\<lambda>w. (w_booking_id w, position w)) (waitlist_of db_three ''K'')
     = [(uuid2, 1), (uuid3, 2), (uuid4, 3)] \<and>
   dense_positions db_three ''K'' \<and>
   status_of db_three uuid2 = Some WAITLISTED \<and>
   hasConferenceStarted db_three ''K'' 5 = Some False \<and>
   cancelBooking (\<lambda>k. if k = uuid4 then 0 else 1) db_three 5 uuid2
     = (Failure ''Failed to cancel booking'', db_three) \<and>
   fst (cancelBooking table_order db_three 5 uuid2) = Success uuid2 CANCELED None \<and>
   status_of (snd (cancelBooking table_order db_three 5 uuid2)) uuid2 = Some CANCELED \<and>
   map (\<lambda>w. (w_booking_id w, position w))
     (waitlist_of (snd (cancelBooking table_order db_three 5 uuid2)) ''K'')
     = [(uuid3, 1), (uuid4, 2)]"
  by (simp add: examples_satisfy_schema)
     (simp add: db_three_def engine_defs example_uuids dense_positions_def status_of_def
        booking_of_def upto.simps)

section \<open>Texts of one identifier\<close>

text \<open>
  A call depends on the text of a booking identifier only through the UUID it
  denotes: given two texts of the same UUID, \<^verbatim>\<open>confirmWaitlistBooking\<close> and
  \<^verbatim>\<open>cancelBooking\<close> leave the same database, and their results differ at most in the
  text of the identifier that a success carries.
\<close>

lemma confirm_same_uuid:
  assumes "uuid_in t1 = uuid_in t2"
  shows "snd (confirmWaitlistBooking s now t1) = snd (confirmWaitlistBooking s now t2)"
    and "fst (confirmWaitlistBooking s now t1) = fst (confirmWaitlistBooking s now t2) \<or>
         fst (confirmWaitlistBooking s now t1) = Success t1 CONFIRMED None \<and>
         fst (confirmWaitlistBooking s now t2) = Success t2 CONFIRMED None"
  using assms
  by (auto simp: confirmWaitlistBooking_def booking_with_conference_def
           split: option.splits prod.splits)

lemma cancel_same_uuid:
  assumes "uuid_in t1 = uuid_in t2"
  shows "snd (cancelBooking visit s now t1) = snd (cancelBooking visit s now t2)"
    and "fst (cancelBooking visit s now t1) = fst (cancelBooking visit s now t2) \<or>
         fst (cancelBooking visit s now t1) = Success t1 CANCELED None \<and>
         fst (cancelBooking visit s now t2) = Success t2 CANCELED None"
  using assms
  by (auto simp: cancelBooking_def booking_with_conference_def
           split: option.splits prod.splits)

text \<open>
  A text that is no UUID reaches neither check: the first \<^verbatim>\<open>SELECT\<close> raises, and both
  methods return their catch-all failure with the database unchanged.
\<close>

lemma confirm_malformed_id:
  "uuid_in bookingId = None \<Longrightarrow>
   confirmWaitlistBooking s now bookingId = (Failure ''Failed to confirm booking'', s)"
  by (simp add: confirmWaitlistBooking_def booking_with_conference_def)

lemma cancel_malformed_id:
  "uuid_in bookingId = None \<Longrightarrow>
   cancelBooking visit s now bookingId = (Failure ''Failed to cancel booking'', s)"
  by (simp add: cancelBooking_def booking_with_conference_def)

end
